theory Spec2Isabelle
  imports Main
begin

section \<open>Strings and JavaScript values\<close>

text \<open>
  The bot is a single Node.js file (\<open>server.js\<close>, kept under \<open>src/unnamed/part_000\<close>):
  a webhook for inbound WhatsApp messages, whose work is done by \<open>handleIncoming\<close>, and a
  webhook for billing events. Its texts are modelled as \<open>string\<close>: a list of characters
  whose codes are below 256, read as Latin-1 code points, which covers every character the
  tests of the code look for. A column that can be \<open>null\<close> is a \<open>string option\<close>.
  JavaScript treats \<open>null\<close>, \<open>undefined\<close> and the empty string as false in a condition.
\<close>

definition truthy :: "string option \<Rightarrow> bool" where
  "truthy s = (case s of None \<Rightarrow> False | Some v \<Rightarrow> v \<noteq> [])"

definition or_else :: "string option \<Rightarrow> string \<Rightarrow> string" where
  \<comment> \<open>\<open>a || d\<close> on a nullable string\<close>
  "or_else s d = (case s of None \<Rightarrow> d | Some v \<Rightarrow> if v = [] then d else v)"

fun startsWith :: "string \<Rightarrow> string \<Rightarrow> bool" where
  "startsWith s [] = True"
| "startsWith [] (p # ps) = False"
| "startsWith (c # cs) (p # ps) = (c = p \<and> startsWith cs ps)"

fun str_includes :: "string \<Rightarrow> string \<Rightarrow> bool" where
  "str_includes [] p = (p = [])"
| "str_includes (c # cs) p = (startsWith (c # cs) p \<or> str_includes cs p)"

fun replace_first :: "string \<Rightarrow> string \<Rightarrow> string \<Rightarrow> string" where
  \<comment> \<open>\<open>s.replace(pat, rep)\<close> with a string pattern: the first occurrence only\<close>
  "replace_first [] pat rep = (if pat = [] then rep else [])"
| "replace_first (c # cs) pat rep =
     (if startsWith (c # cs) pat then rep @ drop (length pat) (c # cs)
      else c # replace_first cs pat rep)"

fun split_on :: "char \<Rightarrow> string \<Rightarrow> string list" where
  \<comment> \<open>\<open>s.split(sep)\<close> for a one-character separator\<close>
  "split_on sep [] = [[]]"
| "split_on sep (c # cs) =
     (if c = sep then [] # split_on sep cs
      else (case split_on sep cs of [] \<Rightarrow> [[c]] | p # ps \<Rightarrow> (c # p) # ps))"

fun join_with :: "char \<Rightarrow> string list \<Rightarrow> string" where
  "join_with sep [] = []"
| "join_with sep [p] = p"
| "join_with sep (p # q # ps) = p @ sep # join_with sep (q # ps)"

definition toLowerCase_char :: "char \<Rightarrow> char" where
  "toLowerCase_char c =
     (let n = (of_char c :: nat)
      in if (65 \<le> n \<and> n \<le> 90) \<or> (192 \<le> n \<and> n \<le> 222 \<and> n \<noteq> 215)
         then char_of (n + 32) else c)"

definition toLowerCase :: "string \<Rightarrow> string" where
  "toLowerCase s = map toLowerCase_char s"

definition canonicalize :: "char \<Rightarrow> char" where
  \<comment> \<open>the case folding of a regular expression with the \<open>i\<close> flag (upper case)\<close>
  "canonicalize c =
     (let n = (of_char c :: nat)
      in if (97 \<le> n \<and> n \<le> 122) \<or> (224 \<le> n \<and> n \<le> 254 \<and> n \<noteq> 247)
         then char_of (n - 32) else c)"

definition test_i :: "string \<Rightarrow> string \<Rightarrow> bool" where
  \<comment> \<open>\<open>/pat/i.test(s)\<close> for a literal pattern: a case-insensitive substring search\<close>
  "test_i pat s = str_includes (map canonicalize s) (map canonicalize pat)"

definition test_exact_i :: "string \<Rightarrow> string \<Rightarrow> bool" where
  \<comment> \<open>\<open>/^pat$/i.test(s)\<close> for a literal pattern\<close>
  "test_exact_i pat s = (map canonicalize s = map canonicalize pat)"

definition is_space :: "char \<Rightarrow> bool" where
  "is_space c = ((of_char c :: nat) \<in> {9, 10, 11, 12, 13, 32, 160})"

definition trim :: "string \<Rightarrow> string" where
  "trim s = rev (dropWhile is_space (rev (dropWhile is_space s)))"

definition is_digit :: "char \<Rightarrow> bool" where
  "is_digit c = (48 \<le> (of_char c :: nat) \<and> (of_char c :: nat) \<le> 57)"

section \<open>The language menu\<close>

record menu_entry =
  name :: string
  code :: string

definition MENU :: "(char \<times> menu_entry) list" where
  "MENU =
    [(CHR ''1'', \<lparr>name = ''English'', code = ''en''\<rparr>),
     (CHR ''2'', \<lparr>name = ''Spanish'', code = ''es''\<rparr>),
     (CHR ''3'', \<lparr>name = ''French'', code = ''fr''\<rparr>),
     (CHR ''4'', \<lparr>name = ''Portuguese'', code = ''pt''\<rparr>),
     (CHR ''5'', \<lparr>name = ''German'', code = ''de''\<rparr>)]"

definition match_digit :: "string \<Rightarrow> char option" where
  \<comment> \<open>\<open>s.match(/^\d/)\<close>: the first character when it is a digit\<close>
  "match_digit s = (case s of [] \<Rightarrow> None | c # _ \<Rightarrow> if is_digit c then Some c else None)"

definition pickLang :: "string \<Rightarrow> menu_entry option" where
  "pickLang txt =
     (let byName = find (\<lambda>e. code e = toLowerCase txt \<or> toLowerCase (name e) = toLowerCase txt)
                        (map snd MENU)
      in case match_digit (trim txt) of
           None \<Rightarrow> byName
         | Some d \<Rightarrow> (case map_of MENU d of Some e \<Rightarrow> Some e | None \<Rightarrow> byName))"


section \<open>Rows, messages and the state of the world\<close>

text \<open>
  One row of the \<open>users\<close> table. The handler writes \<open>language_step\<close>, \<open>plan\<close> and
  \<open>free_used\<close> when it creates a row, so these are never \<open>null\<close> in a row the bot made;
  \<open>plan\<close> is kept nullable because the code tests \<open>!user.plan\<close>.
\<close>

record user =
  user_id :: string
  phone_number :: string
  language_step :: string
  ui_lang :: "string option"
  source_lang :: "string option"
  target_lang :: "string option"
  voice_gender :: "string option"
  plan :: "string option"
  free_used :: int
  stripe_cust_id :: "string option"
  stripe_sub_id :: "string option"

record translation_row =
  row_id :: string
  row_phone_number :: string
  original_text :: string
  translated_text :: string
  language_from :: string
  language_to :: string

text \<open>
  The tables are held in the world. A write to a table always succeeds; the read of the
  sender's row may fail, and the handler does not look at the error of a read: it sees
  \<open>data: null\<close>, as it does when there is no row. The fixed texts of the bot carry emoji, so an outbound text is built from constructors that name the literal or
  the template of the source:
  \<^item> \<open>I18N lang key\<close> is the entry \<open>I18N[lang][key]\<close> of the string table;
  \<open>PleaseChoose\<close> is the literal \<open>"Please choose your language:"\<close>;
  \<^item> \<open>MenuMsg t\<close> is \<open>menuMsg(t)\<close>: \<open>t\<close>, an empty line and the five menu lines;
  \<open>WelcomeMenu\<close> is the welcome line followed by the same five menu lines;
  \<^item> \<open>Lines a b\<close> is \<open>a + "\n" + b\<close>;
  \<^item> \<open>TapToPay link\<close> is the template \<open>Tap to pay -> ${link}\<close>, \<open>Heard t\<close> the template
  that puts the speaking-head mark and a space before \<open>t\<close>;
  \<^item> \<open>PaymentLinkError\<close>, \<open>SetupIncomplete\<close> and \<open>SendTextOrVoice\<close> are the three warning
  literals;
  \<^item> \<open>Plain s\<close> is a string that the code passes on as it is;
  \<^item> \<open>L lang key\<close> and \<open>PaywallText\<close> are the table entry \<open>L[lang][key]\<close> and the constant
  \<open>PAYWALL\<close> of the variant of the file kept under \<open>src/unnamed/part_001\<close>.
\<close>

datatype i18n_key = How | Receive | Voice | GenderErr | SetupDone | Paywall | TargetDiff | Reply1to5

datatype l_key = LHow | AskReceive | AskGender | LSetupDone

datatype body =
    I18N string i18n_key
  | L string l_key
  | PaywallText
  | PleaseChoose
  | MenuMsg body
  | WelcomeMenu
  | Lines body body
  | TapToPay string
  | Heard string
  | PaymentLinkError
  | SetupIncomplete
  | SendTextOrVoice
  | Plain string

datatype payload = Body body | MediaUrl string

record voice =
  voice_name :: string
  ssmlGender :: string
  languageCodes :: "string list"

record world =
  users :: "user list"
  translation_rows :: "translation_row list"
  files :: "string list"
  outbox :: "(string \<times> payload) list"
  voiceCache :: "(string \<times> voice list) list option"

definition tr :: "string \<Rightarrow> i18n_key \<Rightarrow> body" where
  \<comment> \<open>\<open>(I18N[lang] && I18N[lang][key]) || I18N.en[key]\<close>; every table has every key\<close>
  "tr lang key = (if lang \<in> set [''en'', ''es'', ''fr'', ''pt'', ''de''] then I18N lang key
                  else I18N ''en'' key)"

definition menuMsg :: "body \<Rightarrow> body" where
  "menuMsg txt = MenuMsg txt"

section \<open>The services the bot calls\<close>

text \<open>
  Every outside service is a field of the environment: what the call returns during one
  run of a handler, \<open>None\<close> when the call throws. The configuration read from the
  process environment is here too.
  \<^item> \<open>db_select_ok\<close> says whether the request \<open>select("*").eq("phone_number", from).single()\<close>
  of this run is answered; when it is not, the client returns \<open>{data: null, error}\<close> and
  does not throw.
  \<^item> \<open>db_new_id\<close> is the id the database gives to a new row; \<open>db_update_returns_rows\<close> says
  whether an \<open>update\<close> answers with the rows it changed (the billing webhook reads
  \<open>upd.data?.length\<close>).
  \<^item> \<open>uuid_tmp\<close>, \<open>uuid_log\<close> and \<open>uuid_mp3\<close> are the results of the three \<open>uuid()\<close> calls: the
  temporary file, the log row and the uploaded audio.
  \<^item> \<open>twilio_create to p\<close> says whether \<open>messages.create\<close> succeeds for this payload.
  \<^item> \<open>stripe_customers_create phone\<close> is the id of the new customer (the description is
  built from the phone number), \<open>stripe_sessions_create\<close> the url of the new checkout session,
  \<open>stripe_constructEvent body signature secret\<close> the verified event.
  \<^item> \<open>fetch_media url\<close> is the downloaded buffer and the \<open>content-type\<close> header;
  \<open>ffmpeg_run input\<close> says whether the transcoding ends without error.
  \<^item> \<open>transcriptions_create model wav\<close>, \<open>detect_api q\<close> and \<open>chat_completion text target\<close> are
  the answers of the speech-to-text, language detection and chat completion services.
  \<^item> \<open>voices_api\<close> is the voice list; \<open>synthesize_api text languageCode name\<close> is the
  \<open>audioContent\<close> of the answer, \<open>Some None\<close> when the answer has none.
  \<^item> \<open>storage_upload n name\<close> is the result of the upload attempt number \<open>n\<close>;
  \<open>storage_createBucket\<close> is the error code of \<open>createBucket\<close>, if any.
\<close>

datatype error =
    TwilioError | StripeError | FetchError | FfmpegError | WhisperError | DetectError
  | OpenAIError | VoicesError | SynthError | TTSFailed | StorageError | ENOENT | TypeError

record transcription =
  tr_text :: string
  tr_language :: "string option"

record checkout_params =
  cp_mode :: string
  cp_customer :: string
  cp_price :: string
  cp_tier :: string

datatype upload_result = Uploaded | BucketNotFound | UploadFailed

record stripe_event =
  ev_type :: string
  ev_id :: "string option"
  ev_customer :: "string option"
  ev_subscription :: "string option"
  ev_tier :: "string option"
  ev_uid :: "string option"

record env =
  SUPABASE_URL :: string
  STRIPE_WEBHOOK_SECRET :: string
  PRICE_MONTHLY :: string
  PRICE_ANNUAL :: string
  PRICE_LIFE :: string
  db_select_ok :: bool
  db_new_id :: string
  db_update_returns_rows :: bool
  uuid_tmp :: string
  uuid_log :: string
  uuid_mp3 :: string
  twilio_create :: "string \<Rightarrow> payload \<Rightarrow> bool"
  stripe_customers_create :: "string \<Rightarrow> string option"
  stripe_sessions_create :: "checkout_params \<Rightarrow> string option"
  stripe_constructEvent :: "string \<Rightarrow> string option \<Rightarrow> string \<Rightarrow> stripe_event option"
  fetch_media :: "string \<Rightarrow> (string \<times> string option) option"
  ffmpeg_run :: "string \<Rightarrow> bool"
  transcriptions_create :: "string \<Rightarrow> string \<Rightarrow> transcription option"
  detect_api :: "string \<Rightarrow> string option"
  chat_completion :: "string \<Rightarrow> string \<Rightarrow> string option"
  voices_api :: "voice list option"
  synthesize_api :: "string \<Rightarrow> string \<Rightarrow> string \<Rightarrow> string option option"
  storage_upload :: "nat \<Rightarrow> string \<Rightarrow> upload_result"
  storage_createBucket :: "string option"

section \<open>Sequencing, exceptions and \<open>finally\<close>\<close>

text \<open>
  An \<open>async\<close> function is a function from the world to a result and the new world. The
  result is \<open>Inl e\<close> when the function throws \<open>e\<close>: what it changed before stays changed.
\<close>

type_synonym 'a io = "world \<Rightarrow> (error + 'a) \<times> world"

definition ret :: "'a \<Rightarrow> 'a io" where
  "ret x w = (Inr x, w)"

definition throw :: "error \<Rightarrow> 'a io" where
  "throw e w = (Inl e, w)"

definition bind :: "'a io \<Rightarrow> ('a \<Rightarrow> 'b io) \<Rightarrow> 'b io" where
  "bind m f w = (case m w of (Inl e, w') \<Rightarrow> (Inl e, w') | (Inr x, w') \<Rightarrow> f x w')"

definition seq :: "unit io \<Rightarrow> 'b io \<Rightarrow> 'b io" where
  "seq m k = bind m (\<lambda>_. k)"

definition try_catch :: "'a io \<Rightarrow> (error \<Rightarrow> 'a io) \<Rightarrow> 'a io" where
  "try_catch m h w = (case m w of (Inl e, w') \<Rightarrow> h e w' | (Inr x, w') \<Rightarrow> (Inr x, w'))"

definition try_finally :: "'a io \<Rightarrow> unit io \<Rightarrow> 'a io" where
  \<comment> \<open>the cleanup runs on both exits; when it throws, its exception replaces the result\<close>
  "try_finally m fin w =
     (case m w of (r, w') \<Rightarrow>
        (case fin w' of (Inl e, w'') \<Rightarrow> (Inl e, w'') | (Inr _, w'') \<Rightarrow> (r, w'')))"

definition modify :: "(world \<Rightarrow> world) \<Rightarrow> unit io" where
  "modify f w = (Inr (), f w)"

section \<open>The table operations\<close>

definition eq_col :: "string option \<Rightarrow> string option \<Rightarrow> bool" where
  \<comment> \<open>\<open>.eq(column, value)\<close>: a \<open>null\<close> on either side matches no row\<close>
  "eq_col c v = (c \<noteq> None \<and> c = v)"

definition update_rows :: "(user \<Rightarrow> bool) \<Rightarrow> (user \<Rightarrow> user) \<Rightarrow> user list \<Rightarrow> user list" where
  \<comment> \<open>\<open>from("users").update(f).<filter p>\<close>: every row that passes the filter is rewritten\<close>
  "update_rows p f us = map (\<lambda>u. if p u then f u else u) us"

definition update_users :: "(user \<Rightarrow> bool) \<Rightarrow> (user \<Rightarrow> user) \<Rightarrow> unit io" where
  "update_users p f = modify (\<lambda>w. w\<lparr>users := update_rows p f (users w)\<rparr>)"

definition select_user :: "env \<Rightarrow> string \<Rightarrow> user option io" where
  \<comment> \<open>\<open>select("*").eq("phone_number", from).single()\<close>: \<open>data\<close> is the row, or \<open>null\<close> when there
      is no row and when the request fails\<close>
  "select_user env from w =
     (Inr (if db_select_ok env then find (\<lambda>u. phone_number u = from) (users w) else None), w)"

definition new_user :: "env \<Rightarrow> string \<Rightarrow> user" where
  "new_user env from =
     \<lparr>user_id = db_new_id env, phone_number = from, language_step = ''ui'', ui_lang = None,
      source_lang = None, target_lang = None, voice_gender = None, plan = Some ''FREE'',
      free_used = 0, stripe_cust_id = None, stripe_sub_id = None\<rparr>"

definition upsert_rows :: "env \<Rightarrow> string \<Rightarrow> user list \<Rightarrow> user list" where
  \<comment> \<open>on a conflict on \<open>phone_number\<close> the three given columns of the existing row are
      overwritten; otherwise the row is inserted\<close>
  "upsert_rows env from us =
     (if \<exists>u \<in> set us. phone_number u = from
      then update_rows (\<lambda>u. phone_number u = from)
             (\<lambda>u. u\<lparr>language_step := ''ui'', plan := Some ''FREE'', free_used := 0\<rparr>) us
      else us @ [new_user env from])"

definition upsert_user :: "env \<Rightarrow> string \<Rightarrow> user option io" where
  \<comment> \<open>\<open>upsert({phone_number, language_step:"ui", plan:"FREE", free_used:0},
      {onConflict:["phone_number"]}).select("*").single()\<close>: the write and the row it answers with\<close>
  "upsert_user env from w =
     (let us = upsert_rows env from (users w)
      in (Inr (find (\<lambda>u. phone_number u = from) us), w\<lparr>users := us\<rparr>))"

definition logRow :: "env \<Rightarrow> string \<Rightarrow> string \<Rightarrow> string \<Rightarrow> string \<Rightarrow> string \<Rightarrow> unit io" where
  "logRow env from original translated detected dest =
     modify (\<lambda>w. w\<lparr>translation_rows := translation_rows w @
        [\<lparr>row_id = uuid_log env, row_phone_number = from, original_text = original,
          translated_text = translated, language_from = detected, language_to = dest\<rparr>]\<rparr>)"

section \<open>Sending a message\<close>

definition sendMessage :: "env \<Rightarrow> string \<Rightarrow> body \<Rightarrow> string option \<Rightarrow> unit io" where
  \<comment> \<open>\<open>mediaUrl ? p.mediaUrl=[mediaUrl] : p.body=body\<close>, then \<open>messages.create(p)\<close>\<close>
  "sendMessage env to b mediaUrl =
     (let p = (if truthy mediaUrl then MediaUrl (or_else mediaUrl []) else Body b)
      in if twilio_create env to p
         then modify (\<lambda>w. w\<lparr>outbox := outbox w @ [(to, p)]\<rparr>)
         else throw TwilioError)"

section \<open>Billing: the checkout link\<close>

definition ensureCustomer :: "env \<Rightarrow> user \<Rightarrow> string io" where
  "ensureCustomer env u =
     (if truthy (stripe_cust_id u) then ret (or_else (stripe_cust_id u) [])
      else (case stripe_customers_create env (phone_number u) of
              None \<Rightarrow> throw StripeError
            | Some c \<Rightarrow>
                seq (update_users (\<lambda>r. user_id r = user_id u) (\<lambda>r. r\<lparr>stripe_cust_id := Some c\<rparr>))
                    (ret c)))"

definition checkoutUrl :: "env \<Rightarrow> user \<Rightarrow> string \<Rightarrow> string io" where
  "checkoutUrl env u tier =
     (let price = (if tier = ''monthly'' then PRICE_MONTHLY env
                   else if tier = ''annual'' then PRICE_ANNUAL env else PRICE_LIFE env)
      in bind (ensureCustomer env u) (\<lambda>customer.
           case stripe_sessions_create env
                  \<lparr>cp_mode = (if tier = ''life'' then ''payment'' else ''subscription''),
                   cp_customer = customer, cp_price = price, cp_tier = tier\<rparr> of
             None \<Rightarrow> throw StripeError
           | Some url \<Rightarrow> ret url))"

section \<open>Audio, transcription, translation and speech\<close>

definition writeFileSync :: "string \<Rightarrow> unit io" where
  "writeFileSync path = modify (\<lambda>w. w\<lparr>files := List.insert path (files w)\<rparr>)"

definition unlinkSync :: "string \<Rightarrow> unit io" where
  "unlinkSync path w =
     (if path \<in> set (files w) then (Inr (), w\<lparr>files := removeAll path (files w)\<rparr>)
      else (Inl ENOENT, w))"

definition toWav :: "env \<Rightarrow> string \<Rightarrow> string \<Rightarrow> string io" where
  \<comment> \<open>the promise resolves with the output path when ffmpeg ends, rejects on its error
     (the output file, if ffmpeg left one, is not counted)\<close>
  "toWav env i out =
     (if ffmpeg_run env i then seq (modify (\<lambda>w. w\<lparr>files := List.insert out (files w)\<rparr>)) (ret out)
      else throw FfmpegError)"

definition transcribe :: "env \<Rightarrow> string \<Rightarrow> string \<Rightarrow> (string \<times> string) io" where
  \<comment> \<open>one \<open>openai.audio.transcriptions.create\<close> call and the object built from its answer\<close>
  "transcribe env model wav =
     (case transcriptions_create env model wav of
        None \<Rightarrow> throw WhisperError
      | Some r \<Rightarrow> ret (tr_text r, take 2 (or_else (tr_language r) [])))"

definition whisper :: "env \<Rightarrow> string \<Rightarrow> (string \<times> string) io" where
  "whisper env wav =
     try_catch (transcribe env ''whisper-large-v3'' wav) (\<lambda>_. transcribe env ''whisper-1'' wav)"

definition detectLang :: "env \<Rightarrow> string \<Rightarrow> string io" where
  "detectLang env q = (case detect_api env q of None \<Rightarrow> throw DetectError | Some l \<Rightarrow> ret l)"

definition translate :: "env \<Rightarrow> string \<Rightarrow> string \<Rightarrow> string io" where
  "translate env txt target =
     (case chat_completion env txt target of None \<Rightarrow> throw OpenAIError | Some c \<Rightarrow> ret (trim c))"

definition cache_push :: "(string \<times> voice list) list \<Rightarrow> string \<Rightarrow> voice \<Rightarrow> (string \<times> voice list) list" where
  \<comment> \<open>\<open>(m[code] ||= []).push(v)\<close>\<close>
  "cache_push m c v =
     (case map_of m c of
        None \<Rightarrow> m @ [(c, [v])]
      | Some _ \<Rightarrow> map (\<lambda>(k, l). if k = c then (k, l @ [v]) else (k, l)) m)"

definition build_cache :: "voice list \<Rightarrow> (string \<times> voice list) list" where
  \<comment> \<open>the \<open>reduce\<close> of \<open>loadVoices\<close>; \<open>full.split("-",1)[0]\<close> is the text before the first dash\<close>
  "build_cache vs =
     foldl (\<lambda>m v. foldl (\<lambda>m full. cache_push m (takeWhile (\<lambda>c. c \<noteq> CHR ''-'') full) v)
                          m (languageCodes v)) [] vs"

definition loadVoices :: "env \<Rightarrow> unit io" where
  "loadVoices env w =
     (case voiceCache w of
        Some _ \<Rightarrow> (Inr (), w)
      | None \<Rightarrow> (case voices_api env of
                   None \<Rightarrow> (Inl VoicesError, w)
                 | Some vs \<Rightarrow> (Inr (), w\<lparr>voiceCache := Some (build_cache vs)\<rparr>)))"

definition choose_voice :: "(string \<times> voice list) list \<Rightarrow> string \<Rightarrow> string \<Rightarrow> string" where
  \<comment> \<open>the body of \<open>pickVoice\<close> after the cache is loaded\<close>
  "choose_voice cache lang gender =
     (let every = (case map_of cache lang of None \<Rightarrow> [] | Some l \<Rightarrow> l);
          list0 = filter (\<lambda>v. ssmlGender v = gender) every;
          list1 = (if list0 = [] then every else list0);
          us = filter (\<lambda>v. startsWith (voice_name v) ''en-US'') list1;
          list2 = (if lang = ''en'' \<and> us \<noteq> [] then us else list1)
      in case find (\<lambda>v. str_includes (voice_name v) ''Neural2'') list2 of
           Some v \<Rightarrow> voice_name v
         | None \<Rightarrow>
            (case find (\<lambda>v. str_includes (voice_name v) ''WaveNet'') list2 of
               Some v \<Rightarrow> voice_name v
             | None \<Rightarrow>
                (case find (\<lambda>v. str_includes (voice_name v) ''Standard'') list2 of
                   Some v \<Rightarrow> voice_name v
                 | None \<Rightarrow> ''en-US-Standard-A'')))"

definition pickVoice :: "env \<Rightarrow> string \<Rightarrow> string \<Rightarrow> string io" where
  "pickVoice env lang gender =
     seq (loadVoices env)
         (\<lambda>w. (Inr (choose_voice (case voiceCache w of None \<Rightarrow> [] | Some m \<Rightarrow> m) lang gender), w))"

definition synth :: "env \<Rightarrow> string \<Rightarrow> string \<Rightarrow> string option io" where
  \<comment> \<open>the inner function of \<open>tts\<close>: a buffer, or \<open>null\<close> when the answer has no \<open>audioContent\<close>\<close>
  "synth env txt nm =
     (let lc = join_with (CHR ''-'') (take 2 (split_on (CHR ''-'') nm))
      in case synthesize_api env txt lc nm of
           None \<Rightarrow> throw SynthError
         | Some audioContent \<Rightarrow> ret (if truthy audioContent then audioContent else None))"

definition tts :: "env \<Rightarrow> string \<Rightarrow> string \<Rightarrow> string \<Rightarrow> string io" where
  "tts env txt lang gender =
     bind (pickVoice env lang gender) (\<lambda>nm.
     bind (synth env txt nm) (\<lambda>buf1.
       case buf1 of Some b \<Rightarrow> ret b | None \<Rightarrow>
     bind (synth env txt lang) (\<lambda>buf2.
       case buf2 of Some b \<Rightarrow> ret b | None \<Rightarrow>
     bind (synth env txt ''en-US-Standard-A'') (\<lambda>buf3.
       case buf3 of Some b \<Rightarrow> ret b | None \<Rightarrow> throw TTSFailed))))"

definition ensureBucket :: "env \<Rightarrow> unit io" where
  "ensureBucket env =
     (case storage_createBucket env of
        None \<Rightarrow> ret ()
      | Some c \<Rightarrow> if c \<noteq> ''PGRST116'' then throw StorageError else ret ())"

definition uploadAudio :: "env \<Rightarrow> string \<Rightarrow> string io" where
  "uploadAudio env buffer =
     (let fn = ''tts_'' @ uuid_mp3 env @ ''.mp3'';
          finish = (\<lambda>up. if up \<noteq> Uploaded then throw StorageError
                          else ret (SUPABASE_URL env @ ''/storage/v1/object/public/tts-voices/'' @ fn))
      in if storage_upload env 0 fn = BucketNotFound
         then seq (ensureBucket env) (finish (storage_upload env 1 fn))
         else finish (storage_upload env 0 fn))"

section \<open>The main handler\<close>

definition isFree :: "user \<Rightarrow> bool" where
  \<comment> \<open>\<open>!user.plan || user.plan === "FREE"\<close>\<close>
  "isFree u = (\<not> truthy (plan u) \<or> plan u = Some ''FREE'')"

definition test_1to3 :: "string \<Rightarrow> bool" where
  \<comment> \<open>\<open>/^[1-3]$/.test(text)\<close>\<close>
  "test_1to3 s = (case s of [c] \<Rightarrow> c \<in> set ''123'' | _ \<Rightarrow> False)"

definition test_reset :: "string \<Rightarrow> bool" where
  \<comment> \<open>\<open>/^(reset|change language)$/i.test(text)\<close>\<close>
  "test_reset s = (test_exact_i ''reset'' s \<or> test_exact_i ''change language'' s)"

definition test_male :: "string \<Rightarrow> bool" where
  \<comment> \<open>\<open>/male|masculina|mannlich/i.test(text)\<close>, the third word with a-umlaut, code point 228\<close>
  "test_male s = (test_i ''male'' s \<or> test_i ''masculina'' s
                  \<or> test_i (''m'' @ [char_of (228 :: nat)] @ ''nnlich'') s)"

definition test_female :: "string \<Rightarrow> bool" where
  \<comment> \<open>\<open>/female|femenina|weiblich/i.test(text)\<close>\<close>
  "test_female s = (test_i ''female'' s \<or> test_i ''femenina'' s \<or> test_i ''weiblich'' s)"

definition fetch_or_create :: "env \<Rightarrow> string \<Rightarrow> user io" where
  \<comment> \<open>\<open>if(!user)\<close> is taken when there is no row and when the read failed: in the second
      case the upsert runs over the row that exists. A \<open>null\<close> answer of the upsert would
      make the first \<open>user.plan\<close> throw.\<close>
  "fetch_or_create env from =
     bind (select_user env from) (\<lambda>found.
       case found of
         Some u \<Rightarrow> ret u
       | None \<Rightarrow>
           bind (upsert_user env from) (\<lambda>made.
             case made of Some u \<Rightarrow> ret u | None \<Rightarrow> throw TypeError))"

definition paywall_quick_reply :: "env \<Rightarrow> string \<Rightarrow> string \<Rightarrow> user \<Rightarrow> unit io" where
  "paywall_quick_reply env from txt u =
     (let tier = (if txt = ''1'' then ''monthly'' else if txt = ''2'' then ''annual'' else ''life'')
      in try_catch
           (bind (checkoutUrl env u tier) (\<lambda>link. sendMessage env from (TapToPay link) None))
           (\<lambda>e. sendMessage env from PaymentLinkError None))"

definition reset_cmd :: "env \<Rightarrow> string \<Rightarrow> unit io" where
  "reset_cmd env from =
     seq (update_users (\<lambda>r. phone_number r = from)
            (\<lambda>r. r\<lparr>language_step := ''ui'', source_lang := None, target_lang := None,
                    voice_gender := None, ui_lang := None\<rparr>))
         (sendMessage env from WelcomeMenu None)"

definition paywall_gate :: "env \<Rightarrow> string \<Rightarrow> user \<Rightarrow> unit io" where
  "paywall_gate env from u = sendMessage env from (tr (or_else (ui_lang u) ''en'') Paywall) None"

definition step_ui :: "env \<Rightarrow> string \<Rightarrow> string \<Rightarrow> unit io" where
  "step_ui env from txt =
     (case pickLang txt of
        None \<Rightarrow> sendMessage env from (Lines (tr ''en'' Reply1to5) (menuMsg PleaseChoose)) None
      | Some c \<Rightarrow>
          seq (update_users (\<lambda>r. phone_number r = from)
                 (\<lambda>r. r\<lparr>ui_lang := Some (code c), source_lang := Some (code c),
                         language_step := ''target''\<rparr>))
         (seq (sendMessage env from (tr (code c) How) None)
              (sendMessage env from (menuMsg (tr (code c) Receive)) None)))"

definition step_target :: "env \<Rightarrow> string \<Rightarrow> string \<Rightarrow> user \<Rightarrow> unit io" where
  "step_target env from txt u =
     (let ui = or_else (ui_lang u) ''en''
      in case pickLang txt of
           None \<Rightarrow> sendMessage env from (Lines (tr ui Reply1to5) (menuMsg (tr ui Receive))) None
         | Some c \<Rightarrow>
             if Some (code c) = source_lang u
             then sendMessage env from (Lines (tr ui TargetDiff) (menuMsg (tr ui Receive))) None
             else seq (update_users (\<lambda>r. phone_number r = from)
                         (\<lambda>r. r\<lparr>target_lang := Some (code c), language_step := ''gender''\<rparr>))
                      (sendMessage env from (tr ui Voice) None))"

definition choose_gender :: "string \<Rightarrow> string option" where
  \<comment> \<open>\<open>let g=null; if(male tests) g="MALE"; if(female tests) g="FEMALE";\<close>\<close>
  "choose_gender txt =
     (let g0 = None;
          g1 = (if txt = ''1'' \<or> test_male txt then Some ''MALE'' else g0);
          g2 = (if txt = ''2'' \<or> test_female txt then Some ''FEMALE'' else g1)
      in g2)"

definition step_gender :: "env \<Rightarrow> string \<Rightarrow> string \<Rightarrow> user \<Rightarrow> unit io" where
  "step_gender env from txt u =
     (let ui = or_else (ui_lang u) ''en''
      in case choose_gender txt of
           None \<Rightarrow> sendMessage env from (tr ui GenderErr) None
         | Some g \<Rightarrow>
             seq (update_users (\<lambda>r. phone_number r = from)
                    (\<lambda>r. r\<lparr>voice_gender := Some g, language_step := ''ready''\<rparr>))
                 (sendMessage env from (tr ui SetupDone) None))"

definition media_ext :: "string \<Rightarrow> string" where
  "media_ext ctype =
     (if str_includes ctype ''ogg'' then ''.ogg''
      else if str_includes ctype ''mpeg'' then ''.mp3''
      else if str_includes ctype ''mp4'' \<or> str_includes ctype ''m4a'' then ''.m4a''
      else ''.dat'')"

definition transcribe_media :: "env \<Rightarrow> string \<Rightarrow> string \<Rightarrow> (string \<times> string) io" where
  \<comment> \<open>from \<open>fs.writeFileSync(raw,buf)\<close> to the end of the \<open>finally\<close>; the pair is
     \<open>(original, detected)\<close>\<close>
  "transcribe_media env raw wav =
     seq (writeFileSync raw)
       (bind (toWav env raw wav) (\<lambda>_.
          try_finally
            (bind (whisper env wav) (\<lambda>r.
               if snd r \<noteq> [] then ret (fst r, snd r)
               else bind (detectLang env (fst r)) (\<lambda>d. ret (fst r, take 2 d))))
            (seq (unlinkSync raw) (unlinkSync wav))))"

definition media_branch :: "env \<Rightarrow> string \<Rightarrow> (string \<times> string) io" where
  \<comment> \<open>the \<open>if(num>0&&mediaUrl)\<close> block\<close>
  "media_branch env url =
     (case fetch_media env url of
        None \<Rightarrow> throw FetchError
      | Some (buf, header) \<Rightarrow>
          (let ctype = or_else header [];
               ext = media_ext ctype;
               raw = ''/tmp/'' @ uuid_tmp env @ ext;
               wav = replace_first raw ext ''.wav''
           in transcribe_media env raw wav))"

definition destination :: "string \<Rightarrow> string \<Rightarrow> string \<Rightarrow> string" where
  \<comment> \<open>\<open>detected===user.target_lang ? user.source_lang : user.target_lang\<close>\<close>
  "destination detected source target = (if detected = target then source else target)"

definition reply :: "env \<Rightarrow> string \<Rightarrow> int \<Rightarrow> string \<Rightarrow> string \<Rightarrow> string \<Rightarrow> string \<Rightarrow> unit io" where
  "reply env from num original translated dest gender =
     (if num = 0 then sendMessage env from (Plain translated) None
      else seq (sendMessage env from (Heard original) None)
          (seq (sendMessage env from (Plain translated) None)
               (try_catch
                  (bind (tts env translated dest gender) (\<lambda>mp3.
                   bind (uploadAudio env mp3) (\<lambda>pub.
                   sendMessage env from (Plain []) (Some pub))))
                  (\<lambda>e. ret ()))))"

definition translation_phase ::
  "env \<Rightarrow> string \<Rightarrow> string \<Rightarrow> int \<Rightarrow> string option \<Rightarrow> user \<Rightarrow> string \<Rightarrow> string \<Rightarrow> string \<Rightarrow> unit io" where
  "translation_phase env from txt num mediaUrl u source target gender =
     bind (if num > 0 \<and> truthy mediaUrl then media_branch env (or_else mediaUrl [])
           else if txt \<noteq> [] then bind (detectLang env txt) (\<lambda>d. ret (txt, take 2 d))
           else ret ([], []))
       (\<lambda>(original, detected).
          if original = [] then sendMessage env from SendTextOrVoice None
          else (let dest = destination detected source target
                in bind (translate env original dest) (\<lambda>translated.
                   seq (if isFree u
                        then update_users (\<lambda>r. phone_number r = from)
                               (\<lambda>r. r\<lparr>free_used := free_used u + 1\<rparr>)
                        else ret ())
                  (seq (logRow env from original translated detected dest)
                       (reply env from num original translated dest gender)))))"

definition route :: "env \<Rightarrow> string \<Rightarrow> string \<Rightarrow> int \<Rightarrow> string option \<Rightarrow> user \<Rightarrow> unit io" where
  \<comment> \<open>the body of \<open>handleIncoming\<close> once the row is at hand\<close>
  "route env from txt num mediaUrl u =
     (if test_1to3 txt \<and> isFree u \<and> free_used u \<ge> 5 then paywall_quick_reply env from txt u
      else if test_reset txt then reset_cmd env from
      else if isFree u \<and> free_used u \<ge> 5 then paywall_gate env from u
      else if language_step u = ''ui'' then step_ui env from txt
      else if language_step u = ''target'' then step_target env from txt u
      else if language_step u = ''gender'' then step_gender env from txt u
      else (case (source_lang u, target_lang u, voice_gender u) of
              (Some s, Some t, Some g) \<Rightarrow>
                 if s = [] \<or> t = [] \<or> g = [] then sendMessage env from SetupIncomplete None
                 else translation_phase env from txt num mediaUrl u s t g
            | _ \<Rightarrow> sendMessage env from SetupIncomplete None))"

definition handleIncoming :: "env \<Rightarrow> string \<Rightarrow> string \<Rightarrow> int \<Rightarrow> string option \<Rightarrow> unit io" where
  "handleIncoming env from txt num mediaUrl =
     (if from = [] then ret ()
      else bind (fetch_or_create env from) (route env from txt num mediaUrl))"

section \<open>The billing webhook\<close>

datatype response = SendStatus nat | JsonReceived

definition tier_plan :: "string option \<Rightarrow> string" where
  "tier_plan tier = (if tier = Some ''monthly'' then ''MONTHLY''
                     else if tier = Some ''annual'' then ''ANNUAL'' else ''LIFETIME'')"

definition checkout_completed :: "env \<Rightarrow> stripe_event \<Rightarrow> world \<Rightarrow> world" where
  "checkout_completed env s w =
     (let byCustomer = (\<lambda>u. eq_col (stripe_cust_id u) (ev_customer s));
          w1 = w\<lparr>users := update_rows byCustomer
                   (\<lambda>u. u\<lparr>plan := Some (tier_plan (ev_tier s)), free_used := 0,
                           stripe_sub_id := ev_subscription s\<rparr>) (users w)\<rparr>
      in if db_update_returns_rows env \<and> filter byCustomer (users w) = []
         then w1\<lparr>users := update_rows (\<lambda>u. Some (user_id u) = ev_uid s)
                   (\<lambda>u. u\<lparr>plan := Some (tier_plan (ev_tier s)), free_used := 0,
                           stripe_cust_id := ev_customer s, stripe_sub_id := ev_subscription s\<rparr>)
                   (users w1)\<rparr>
         else w1)"

definition subscription_deleted :: "stripe_event \<Rightarrow> world \<Rightarrow> world" where
  "subscription_deleted sub w =
     w\<lparr>users := update_rows (\<lambda>u. eq_col (stripe_sub_id u) (ev_id sub))
                  (\<lambda>u. u\<lparr>plan := Some ''FREE''\<rparr>) (users w)\<rparr>"

definition stripe_webhook :: "env \<Rightarrow> string \<Rightarrow> string option \<Rightarrow> world \<Rightarrow> response \<times> world" where
  "stripe_webhook env raw_body signature w =
     (case stripe_constructEvent env raw_body signature (STRIPE_WEBHOOK_SECRET env) of
        None \<Rightarrow> (SendStatus 400, w)
      | Some event \<Rightarrow>
          (let w1 = (if ev_type event = ''checkout.session.completed''
                     then checkout_completed env event w else w);
               w2 = (if ev_type event = ''customer.subscription.deleted''
                     then subscription_deleted event w1 else w1)
           in (JsonReceived, w2)))"

section \<open>Sample inputs\<close>

text \<open>
  An environment in which every service answers, a user who has finished the wizard and has
  used four of the five free translations, and a world that holds this one row.
\<close>

definition sample_event :: "string \<Rightarrow> stripe_event" where
  "sample_event ty =
     \<lparr>ev_type = ty, ev_id = Some ''sub_1'', ev_customer = Some ''cus_1'',
      ev_subscription = Some ''sub_1'', ev_tier = Some ''annual'', ev_uid = None\<rparr>"

definition env_ok :: env where
  "env_ok =
     \<lparr>SUPABASE_URL = ''https://db.example'', STRIPE_WEBHOOK_SECRET = ''whsec'',
      PRICE_MONTHLY = ''price_m'', PRICE_ANNUAL = ''price_a'', PRICE_LIFE = ''price_l'',
      db_select_ok = True, db_new_id = ''u2'', db_update_returns_rows = False,
      uuid_tmp = ''0a1b'', uuid_log = ''2c3d'', uuid_mp3 = ''4e5f'',
      twilio_create = (\<lambda>to p. True),
      stripe_customers_create = (\<lambda>d. Some ''cus_1''),
      stripe_sessions_create = (\<lambda>p. Some (''https://pay.example/'' @ cp_tier p)),
      stripe_constructEvent =
        (\<lambda>b sg secret. if sg = Some ''good'' then Some (sample_event b) else None),
      fetch_media = (\<lambda>url. Some (''bytes'', Some ''audio/ogg'')),
      ffmpeg_run = (\<lambda>i. True),
      transcriptions_create = (\<lambda>model wav. Some \<lparr>tr_text = ''Hola'', tr_language = None\<rparr>),
      detect_api = (\<lambda>q. Some (if q = ''Hola'' then ''es'' else if q = ''Bonjour'' then ''fr'' else ''en'')),
      chat_completion = (\<lambda>txt target. Some (txt @ '' to '' @ target)),
      voices_api = Some [\<lparr>voice_name = ''en-US-Neural2-F'', ssmlGender = ''FEMALE'',
                          languageCodes = [''en-US'']\<rparr>],
      synthesize_api = (\<lambda>txt lc nm. Some (Some ''mp3'')),
      storage_upload = (\<lambda>n fn. Uploaded),
      storage_createBucket = None\<rparr>"

definition sample_user :: user where
  "sample_user =
     \<lparr>user_id = ''u1'', phone_number = ''+1555'', language_step = ''ready'',
      ui_lang = Some ''en'', source_lang = Some ''en'', target_lang = Some ''es'',
      voice_gender = Some ''FEMALE'', plan = Some ''FREE'', free_used = 4,
      stripe_cust_id = None, stripe_sub_id = None\<rparr>"

definition world_of :: "user list \<Rightarrow> world" where
  "world_of us = \<lparr>users = us, translation_rows = [], files = [], outbox = [], voiceCache = None\<rparr>"

text \<open>
  The same environment in a run whose read of the sender's row is not answered, and the
  world after a new sender has gone through the wizard from the empty tables: \<open>1\<close> for
  English as the language spoken, \<open>2\<close> for Spanish as the language received, \<open>1\<close> for the male
  voice.
\<close>

definition env_read_fails :: env where
  "env_read_fails = env_ok\<lparr>db_select_ok := False\<rparr>"

definition world_after_setup :: world where
  "world_after_setup =
     snd (handleIncoming env_ok ''+1555'' ''1'' 0 None
       (snd (handleIncoming env_ok ''+1555'' ''2'' 0 None
          (snd (handleIncoming env_ok ''+1555'' ''1'' 0 None (world_of []))))))"

section \<open>The variant that tests the wizard first\<close>

text \<open>
  The file under \<open>src/unnamed/part_001\<close> is another version of the same handler. Its helpers
  and its translation phase are the ones above, line for line. It differs in the names of
  the steps (\<open>choose_ui\<close>, \<open>receive\<close>, \<open>gender\<close>, \<open>ready\<close>), in its texts, in updating the row
  by \<open>id\<close>, and in the order of the tests: the three wizard steps come first, then the
  billing quick reply, the reset command and the paywall gate.
\<close>

definition pickLang_001 :: "string \<Rightarrow> menu_entry option" where
  \<comment> \<open>here the name is compared with the trimmed text\<close>
  "pickLang_001 txt =
     (let m = trim txt;
          byName = find (\<lambda>e. code e = toLowerCase m \<or> toLowerCase (name e) = toLowerCase m)
                        (map snd MENU)
      in case match_digit m of
           None \<Rightarrow> byName
         | Some d \<Rightarrow> (case map_of MENU d of Some e \<Rightarrow> Some e | None \<Rightarrow> byName))"

definition t_001 :: "l_key \<Rightarrow> string option \<Rightarrow> body" where
  \<comment> \<open>\<open>(L[lang] ?? L.en)[key]\<close>\<close>
  "t_001 key lang =
     (case lang of
        None \<Rightarrow> L ''en'' key
      | Some l \<Rightarrow> if l \<in> set [''en'', ''es'', ''fr'', ''pt'', ''de''] then L l key else L ''en'' key)"

definition upsert_user_001 :: "env \<Rightarrow> string \<Rightarrow> user option io" where
  "upsert_user_001 env from w =
     (let us = (if \<exists>u \<in> set (users w). phone_number u = from
                then update_rows (\<lambda>u. phone_number u = from)
                       (\<lambda>u. u\<lparr>language_step := ''choose_ui'', plan := Some ''FREE'',
                               free_used := 0\<rparr>) (users w)
                else users w @ [(new_user env from)\<lparr>language_step := ''choose_ui''\<rparr>])
      in (Inr (find (\<lambda>u. phone_number u = from) us), w\<lparr>users := us\<rparr>))"

definition fetch_or_create_001 :: "env \<Rightarrow> string \<Rightarrow> user io" where
  "fetch_or_create_001 env from =
     bind (select_user env from) (\<lambda>found.
       case found of
         Some u \<Rightarrow> ret u
       | None \<Rightarrow>
           bind (upsert_user_001 env from) (\<lambda>made.
             case made of Some u \<Rightarrow> ret u | None \<Rightarrow> throw TypeError))"

definition step_choose_ui_001 :: "env \<Rightarrow> string \<Rightarrow> string \<Rightarrow> user \<Rightarrow> unit io" where
  "step_choose_ui_001 env from txt u =
     (case pickLang_001 txt of
        None \<Rightarrow> sendMessage env from WelcomeMenu None
      | Some lang \<Rightarrow>
          seq (update_users (\<lambda>r. user_id r = user_id u)
                 (\<lambda>r. r\<lparr>ui_lang := Some (code lang), source_lang := Some (code lang),
                         language_step := ''receive''\<rparr>))
         (seq (sendMessage env from (t_001 LHow (Some (code lang))) None)
              (sendMessage env from (MenuMsg (t_001 AskReceive (Some (code lang)))) None)))"

definition step_receive_001 :: "env \<Rightarrow> string \<Rightarrow> string \<Rightarrow> user \<Rightarrow> unit io" where
  "step_receive_001 env from txt u =
     (case pickLang_001 txt of
        None \<Rightarrow> sendMessage env from (MenuMsg (t_001 AskReceive (ui_lang u))) None
      | Some lang \<Rightarrow>
          if Some (code lang) = source_lang u
          then sendMessage env from (MenuMsg (t_001 AskReceive (ui_lang u))) None
          else seq (update_users (\<lambda>r. user_id r = user_id u)
                      (\<lambda>r. r\<lparr>target_lang := Some (code lang), language_step := ''gender''\<rparr>))
                   (sendMessage env from (t_001 AskGender (ui_lang u)) None))"

definition choose_gender_001 :: "string \<Rightarrow> string option" where
  "choose_gender_001 txt =
     (let g0 = None;
          g1 = (if txt = ''1'' \<or> test_i ''male'' txt then Some ''MALE'' else g0);
          g2 = (if txt = ''2'' \<or> test_i ''female'' txt then Some ''FEMALE'' else g1)
      in g2)"

definition step_gender_001 :: "env \<Rightarrow> string \<Rightarrow> string \<Rightarrow> user \<Rightarrow> unit io" where
  "step_gender_001 env from txt u =
     (case choose_gender_001 txt of
        None \<Rightarrow> sendMessage env from (t_001 AskGender (ui_lang u)) None
      | Some g \<Rightarrow>
          seq (update_users (\<lambda>r. user_id r = user_id u)
                 (\<lambda>r. r\<lparr>voice_gender := Some g, language_step := ''ready''\<rparr>))
              (sendMessage env from (t_001 LSetupDone (ui_lang u)) None))"

definition reset_cmd_001 :: "env \<Rightarrow> string \<Rightarrow> user \<Rightarrow> unit io" where
  "reset_cmd_001 env from u =
     seq (update_users (\<lambda>r. user_id r = user_id u)
            (\<lambda>r. r\<lparr>language_step := ''choose_ui'', ui_lang := None, source_lang := None,
                    target_lang := None, voice_gender := None\<rparr>))
         (sendMessage env from WelcomeMenu None)"

definition route_001 :: "env \<Rightarrow> string \<Rightarrow> string \<Rightarrow> int \<Rightarrow> string option \<Rightarrow> user \<Rightarrow> unit io" where
  "route_001 env from txt num mediaUrl u =
     (if language_step u = ''choose_ui'' then step_choose_ui_001 env from txt u
      else if language_step u = ''receive'' then step_receive_001 env from txt u
      else if language_step u = ''gender'' then step_gender_001 env from txt u
      else if test_1to3 txt \<and> isFree u \<and> free_used u \<ge> 5 then paywall_quick_reply env from txt u
      else if test_reset txt then reset_cmd_001 env from u
      else if isFree u \<and> free_used u \<ge> 5 then sendMessage env from PaywallText None
      else (case (source_lang u, target_lang u, voice_gender u) of
              (Some s, Some t, Some g) \<Rightarrow>
                 if s = [] \<or> t = [] \<or> g = [] then sendMessage env from SetupIncomplete None
                 else translation_phase env from txt num mediaUrl u s t g
            | _ \<Rightarrow> sendMessage env from SetupIncomplete None))"

definition handleIncoming_001 :: "env \<Rightarrow> string \<Rightarrow> string \<Rightarrow> int \<Rightarrow> string option \<Rightarrow> unit io" where
  "handleIncoming_001 env from txt num mediaUrl =
     (if from = [] then ret ()
      else bind (fetch_or_create_001 env from) (route_001 env from txt num mediaUrl))"

section \<open>Runs of the system and what a handler leaves alone\<close>

text \<open>
  The bot starts with empty tables and loads the voice list once; after that each inbound
  message and each billing event runs its handler to the end before the next one starts.
  The services may answer differently in every run, so a run in which the read of the
  sender's row fails is a run like any other. Two handlers that interleave at their
  \<open>await\<close> points are not described by this relation.
\<close>

inductive reachable :: "world \<Rightarrow> bool" where
  start: "reachable (world_of [])"
| voices: "reachable w \<Longrightarrow> reachable (snd (loadVoices env w))"
| message: "reachable w \<Longrightarrow> reachable (snd (handleIncoming env from txt num mediaUrl w))"
| billing: "reachable w \<Longrightarrow> reachable (snd (stripe_webhook env raw_body signature w))"

definition keeps :: "(world \<Rightarrow> 'x) \<Rightarrow> 'a io \<Rightarrow> bool" where
  \<comment> \<open>the action never changes the part \<open>f\<close> of the world, whether it returns or throws\<close>
  "keeps f m = (\<forall>w. f (snd (m w)) = f w)"

definition lang_view :: "world \<Rightarrow> (string \<times> string \<times> string option \<times> string option) list" where
  "lang_view w = map (\<lambda>u. (phone_number u, language_step u, source_lang u, target_lang u)) (users w)"

definition lang_ok :: "string \<times> string \<times> string option \<times> string option \<Rightarrow> bool" where
  "lang_ok v = (case v of (phone, step, source, target) \<Rightarrow>
      ((step = ''ui'' \<or> step = ''target'') \<longrightarrow> target = None) \<and>
      (source \<noteq> None \<and> target \<noteq> None \<longrightarrow> source \<noteq> target))"

definition lang_inv :: "(string \<times> string \<times> string option \<times> string option) list \<Rightarrow> bool" where
  "lang_inv vs = (distinct (map fst vs) \<and> (\<forall>v \<in> set vs. lang_ok v))"

definition quota_view :: "world \<Rightarrow> int list" where
  "quota_view w = map free_used (users w)"

definition pure_io :: "'a io \<Rightarrow> bool" where
  \<comment> \<open>the action neither reads nor changes the world\<close>
  "pure_io m = (\<forall>w w0. m w = (fst (m w0), w))"

section \<open>Frame lemmas\<close>

lemma keepsD: "keeps f m \<Longrightarrow> f (snd (m w)) = f w"
  by (simp add: keeps_def)

lemma keeps_ret: "keeps f (ret x)"
  by (simp add: keeps_def ret_def)

lemma keeps_throw: "keeps f (throw e)"
  by (simp add: keeps_def throw_def)

lemma keeps_bind: "keeps f m \<Longrightarrow> (\<And>x. keeps f (k x)) \<Longrightarrow> keeps f (bind m k)"
  unfolding keeps_def bind_def
proof (intro allI)
  fix w
  assume m: "\<forall>w. f (snd (m w)) = f w" and k: "\<And>x. \<forall>w. f (snd (k x w)) = f w"
  show "f (snd (case m w of (Inl e, w') \<Rightarrow> (Inl e, w') | (Inr x, w') \<Rightarrow> k x w')) = f w"
  proof (cases "m w")
    case (Pair r w')
    then have "f w' = f w" using m[rule_format, of w] by simp
    then show ?thesis using Pair k by (cases r) auto
  qed
qed

lemma keeps_seq: "keeps f m \<Longrightarrow> keeps f k \<Longrightarrow> keeps f (seq m k)"
  by (simp add: seq_def keeps_bind)

lemma keeps_try_catch: "keeps f m \<Longrightarrow> (\<And>e. keeps f (h e)) \<Longrightarrow> keeps f (try_catch m h)"
  unfolding keeps_def try_catch_def
proof (intro allI)
  fix w
  assume m: "\<forall>w. f (snd (m w)) = f w" and h: "\<And>e. \<forall>w. f (snd (h e w)) = f w"
  show "f (snd (case m w of (Inl e, w') \<Rightarrow> h e w' | (Inr x, w') \<Rightarrow> (Inr x, w'))) = f w"
  proof (cases "m w")
    case (Pair r w')
    then have "f w' = f w" using m[rule_format, of w] by simp
    then show ?thesis using Pair h by (cases r) auto
  qed
qed

lemma keeps_try_finally: "keeps f m \<Longrightarrow> keeps f fin \<Longrightarrow> keeps f (try_finally m fin)"
  unfolding keeps_def try_finally_def
proof (intro allI)
  fix w
  assume m: "\<forall>w. f (snd (m w)) = f w" and h: "\<forall>w. f (snd (fin w)) = f w"
  show "f (snd (case m w of (r, w') \<Rightarrow>
        (case fin w' of (Inl e, w'') \<Rightarrow> (Inl e, w'') | (Inr _, w'') \<Rightarrow> (r, w'')))) = f w"
  proof (cases "m w")
    case (Pair r w')
    then have 1: "f w' = f w" using m[rule_format, of w] by simp
    show ?thesis
    proof (cases "fin w'")
      case (Pair r2 w2)
      then have "f w2 = f w'" using h[rule_format, of w'] by simp
      with 1 Pair \<open>m w = (r, w')\<close> show ?thesis by (cases r2) auto
    qed
  qed
qed

lemma keeps_modify: "(\<And>w. f (g w) = f w) \<Longrightarrow> keeps f (modify g)"
  by (simp add: keeps_def modify_def)

lemma keeps_sendMessage:
  "(\<And>w x. f (w\<lparr>outbox := x\<rparr>) = f w) \<Longrightarrow> keeps f (sendMessage env to b m)"
  by (simp add: sendMessage_def Let_def keeps_modify keeps_throw)

lemma keeps_pure: "(\<And>w. snd (m w) = w) \<Longrightarrow> keeps f m"
  by (simp add: keeps_def)

lemma keeps_detectLang: "keeps f (detectLang env q)"
  by (simp add: detectLang_def keeps_ret keeps_throw split: option.split)

lemma keeps_translate: "keeps f (translate env a b)"
  by (simp add: translate_def keeps_ret keeps_throw split: option.split)

lemma keeps_transcribe: "keeps f (transcribe env a b)"
  by (simp add: transcribe_def keeps_ret keeps_throw split: option.split)

lemma keeps_whisper: "keeps f (whisper env a)"
  by (simp add: whisper_def keeps_try_catch keeps_transcribe)

lemma keeps_loadVoices: "(\<And>w x. f (w\<lparr>voiceCache := x\<rparr>) = f w) \<Longrightarrow> keeps f (loadVoices env)"
  unfolding keeps_def loadVoices_def by (auto split: option.split)

lemma keeps_pickVoice: "(\<And>w x. f (w\<lparr>voiceCache := x\<rparr>) = f w) \<Longrightarrow> keeps f (pickVoice env l g)"
  unfolding pickVoice_def
  by (rule keeps_seq) (simp_all add: keeps_loadVoices keeps_pure)

lemma keeps_synth: "keeps f (synth env a b)"
  by (simp add: synth_def Let_def keeps_ret keeps_throw split: option.split)

lemma keeps_tts: "(\<And>w x. f (w\<lparr>voiceCache := x\<rparr>) = f w) \<Longrightarrow> keeps f (tts env a l g)"
  unfolding tts_def
  by (intro keeps_bind keeps_pickVoice keeps_synth) (simp_all add: keeps_ret keeps_throw keeps_bind keeps_synth split: option.split)

lemma keeps_ensureBucket: "keeps f (ensureBucket env)"
  by (simp add: ensureBucket_def keeps_ret keeps_throw split: option.split)

lemma keeps_uploadAudio: "keeps f (uploadAudio env b)"
  by (simp add: uploadAudio_def Let_def keeps_ret keeps_throw keeps_seq keeps_ensureBucket)

lemma keeps_reply:
  "(\<And>w x. f (w\<lparr>voiceCache := x\<rparr>) = f w) \<Longrightarrow> (\<And>w x. f (w\<lparr>outbox := x\<rparr>) = f w)
   \<Longrightarrow> keeps f (reply env from num original translated dest gender)"
  unfolding reply_def
  by (simp add: keeps_sendMessage keeps_seq keeps_try_catch keeps_bind keeps_tts keeps_uploadAudio keeps_ret)

lemma keeps_writeFileSync: "(\<And>w x. f (w\<lparr>files := x\<rparr>) = f w) \<Longrightarrow> keeps f (writeFileSync p)"
  by (simp add: writeFileSync_def keeps_modify)

lemma keeps_unlinkSync: "(\<And>w x. f (w\<lparr>files := x\<rparr>) = f w) \<Longrightarrow> keeps f (unlinkSync p)"
  by (simp add: unlinkSync_def keeps_def)

lemma keeps_toWav: "(\<And>w x. f (w\<lparr>files := x\<rparr>) = f w) \<Longrightarrow> keeps f (toWav env i out)"
  by (simp add: toWav_def keeps_modify keeps_seq keeps_ret keeps_throw)

lemma keeps_transcribe_media:
  "(\<And>w x. f (w\<lparr>files := x\<rparr>) = f w) \<Longrightarrow> keeps f (transcribe_media env raw wav)"
  unfolding transcribe_media_def
  by (simp add: keeps_seq keeps_bind keeps_try_finally keeps_writeFileSync
      keeps_unlinkSync keeps_toWav keeps_whisper keeps_detectLang keeps_ret)

lemma keeps_media_branch: "(\<And>w x. f (w\<lparr>files := x\<rparr>) = f w) \<Longrightarrow> keeps f (media_branch env url)"
  unfolding media_branch_def
  by (auto simp: Let_def keeps_throw keeps_transcribe_media split: option.split)

lemma bindE:
  assumes "bind m k w = (r, w')"
  obtains (threw) e where "m w = (Inl e, w')" "r = Inl e"
        | (went) x w1 where "m w = (Inr x, w1)" "k x w1 = (r, w')"
  using assms by (auto simp: bind_def split: prod.splits sum.splits)

lemma map_update_rows: "(\<And>u. v (g u) = v u) \<Longrightarrow> map v (update_rows p g us) = map v us"
  by (simp add: update_rows_def)

lemma keeps_update_users:
  "(\<And>w. f (w\<lparr>users := update_rows p g (users w)\<rparr>) = f w) \<Longrightarrow> keeps f (update_users p g)"
  by (simp add: update_users_def keeps_modify)

lemma keeps_logRow:
  "(\<And>w x. f (w\<lparr>translation_rows := x\<rparr>) = f w) \<Longrightarrow> keeps f (logRow env a b c d e)"
  by (simp add: logRow_def keeps_modify)

lemma keeps_ensureCustomer:
  "(\<And>w p c. f (w\<lparr>users := update_rows p (\<lambda>r. r\<lparr>stripe_cust_id := c\<rparr>) (users w)\<rparr>) = f w)
   \<Longrightarrow> keeps f (ensureCustomer env u)"
  by (simp add: ensureCustomer_def keeps_ret keeps_throw keeps_seq keeps_update_users split: option.split)

lemma keeps_checkoutUrl:
  "(\<And>w p c. f (w\<lparr>users := update_rows p (\<lambda>r. r\<lparr>stripe_cust_id := c\<rparr>) (users w)\<rparr>) = f w)
   \<Longrightarrow> keeps f (checkoutUrl env u tier)"
  unfolding checkoutUrl_def Let_def
  by (rule keeps_bind) (simp_all add: keeps_ensureCustomer keeps_ret keeps_throw split: option.split)

lemma keeps_paywall_quick_reply:
  "(\<And>w p c. f (w\<lparr>users := update_rows p (\<lambda>r. r\<lparr>stripe_cust_id := c\<rparr>) (users w)\<rparr>) = f w)
   \<Longrightarrow> (\<And>w x. f (w\<lparr>outbox := x\<rparr>) = f w)
   \<Longrightarrow> keeps f (paywall_quick_reply env from txt u)"
  unfolding paywall_quick_reply_def Let_def
  by (intro keeps_try_catch keeps_bind keeps_checkoutUrl keeps_sendMessage) simp_all

lemma keeps_if: "keeps f a \<Longrightarrow> keeps f b \<Longrightarrow> keeps f (if c then a else b)"
  by simp

lemma keeps_case_prod: "(\<And>a b. keeps f (k a b)) \<Longrightarrow> keeps f (case x of (a, b) \<Rightarrow> k a b)"
  by (cases x) simp

lemma keeps_translation_phase:
  assumes "\<And>w x. f (w\<lparr>outbox := x\<rparr>) = f w" "\<And>w x. f (w\<lparr>voiceCache := x\<rparr>) = f w"
    "\<And>w x. f (w\<lparr>files := x\<rparr>) = f w" "\<And>w x. f (w\<lparr>translation_rows := x\<rparr>) = f w"
    "\<And>w p n. f (w\<lparr>users := update_rows p (\<lambda>r. r\<lparr>free_used := n\<rparr>) (users w)\<rparr>) = f w"
  shows "keeps f (translation_phase env from txt num mediaUrl u s t g)"
  unfolding translation_phase_def Let_def
  by (intro keeps_bind keeps_case_prod keeps_if keeps_seq keeps_media_branch keeps_detectLang
        keeps_ret keeps_sendMessage keeps_translate keeps_logRow keeps_reply keeps_update_users
        assms)

lemma translation_rows_users [simp]:
  "translation_rows (w\<lparr>users := x\<rparr>) = translation_rows w" by simp

lemma translation_phase_rows:
  assumes "translation_phase env from txt num mediaUrl u s t g w = (r, w')"
  shows "translation_rows w' = translation_rows w \<or>
         (\<exists>row c. translation_rows w' = translation_rows w @ [row]
            \<and> language_to row = destination (language_from row) s t
            \<and> chat_completion env (original_text row) (language_to row) = Some c
            \<and> translated_text row = trim c)"
proof -
  let ?first = "(if num > 0 \<and> truthy mediaUrl then media_branch env (or_else mediaUrl [])
           else if txt \<noteq> [] then bind (detectLang env txt) (\<lambda>d. ret (txt, take 2 d))
           else ret ([], []))"
  have kf: "keeps translation_rows ?first"
    by (simp add: keeps_media_branch keeps_bind keeps_detectLang keeps_ret)
  from assms show ?thesis
    unfolding translation_phase_def
  proof (cases rule: bindE)
    case (threw e)
    then show ?thesis using keepsD[OF kf, of w] by simp
  next
    case (went x w1)
    obtain original detected where x: "x = (original, detected)" by (cases x)
    have w1: "translation_rows w1 = translation_rows w" using keepsD[OF kf, of w] went(1) by simp
    show ?thesis
    proof (cases "original = []")
      case True
      then show ?thesis using went(2) x w1
          keepsD[of translation_rows "sendMessage env from SendTextOrVoice None" w1]
        by (simp add: keeps_sendMessage)
    next
      case False
      let ?dest = "destination detected s t"
      show ?thesis
      proof (cases "chat_completion env original ?dest")
        case None
        then show ?thesis using went(2) x w1 False
          by (simp add: Let_def translate_def bind_def throw_def)
      next
        case (Some c)
        let ?upd = "(if isFree u
                        then update_users (\<lambda>r. phone_number r = from)
                               (\<lambda>r. r\<lparr>free_used := free_used u + 1\<rparr>)
                        else ret ())"
        have ku: "keeps translation_rows ?upd" by (simp add: keeps_update_users keeps_ret)
        have kr: "keeps translation_rows (reply env from num original (trim c) ?dest g)"
          by (simp add: keeps_reply)
        obtain r2 w2 where u2: "?upd w1 = (r2, w2)" by (cases "?upd w1")
        have r2: "r2 = Inr ()" using u2 by (auto simp: update_users_def modify_def ret_def split: if_splits)
        have w2: "translation_rows w2 = translation_rows w" using keepsD[OF ku, of w1] u2 w1 by simp
        let ?row = "\<lparr>row_id = uuid_log env, row_phone_number = from, original_text = original,
          translated_text = trim c, language_from = detected, language_to = ?dest\<rparr>"
        let ?w3 = "w2\<lparr>translation_rows := translation_rows w2 @ [?row]\<rparr>"
        have "(r, w') = reply env from num original (trim c) ?dest g ?w3"
          using went(2) x False Some u2 r2
          by (simp add: Let_def translate_def bind_def ret_def seq_def logRow_def modify_def)
        then have "translation_rows w' = translation_rows ?w3"
          using keepsD[OF kr, of ?w3] by (metis snd_conv)
        then have "translation_rows w' = translation_rows w @ [?row]" using w2 by simp
        then show ?thesis using Some by (intro disjI2 exI[of _ ?row] exI[of _ c]) simp
      qed
    qed
  qed
qed

section \<open>The cases of one run\<close>

text \<open>
  A run of \<open>handleIncoming\<close> either stops at once (no sender), or finds the row of the sender,
  or creates it, or, when the read of an existing row failed, overwrites three of its
  columns; then exactly one block of the handler runs on the row at hand.
\<close>

lemma keepsD2: "keeps f m \<Longrightarrow> m w = (r, w') \<Longrightarrow> f w' = f w"
  by (metis keepsD snd_conv)

lemma find_append_new:
  "find P us = None \<Longrightarrow> P n \<Longrightarrow> find P (us @ [n]) = Some n"
  by (induction us) (auto split: if_splits)

lemma find_None_no_row: "find P us = None \<Longrightarrow> \<not> (\<exists>u \<in> set us. P u)"
  by (simp add: find_None_iff)

lemma find_Some_row: "find P us = Some u \<Longrightarrow> \<exists>u \<in> set us. P u"
  by (auto simp: find_Some_iff)

lemma find_update_rows:
  "(\<And>r. p (f r) = p r) \<Longrightarrow> find p (update_rows p f us) = map_option f (find p us)"
  by (induction us) (auto simp: update_rows_def)

lemma fetch_known:
  assumes "db_select_ok env" "find (\<lambda>u. phone_number u = from) (users w) = Some u"
  shows "fetch_or_create env from w = (Inr u, w)"
  using assms by (simp add: fetch_or_create_def select_user_def bind_def ret_def)

lemma fetch_created:
  assumes "find (\<lambda>u. phone_number u = from) (users w) = None"
  shows "fetch_or_create env from w =
           (Inr (new_user env from), w\<lparr>users := users w @ [new_user env from]\<rparr>)"
proof -
  have "find (\<lambda>u. phone_number u = from) (users w @ [new_user env from]) = Some (new_user env from)"
    using assms by (intro find_append_new) (simp_all add: new_user_def)
  then show ?thesis using assms find_None_no_row[OF assms]
    by (simp add: fetch_or_create_def select_user_def bind_def ret_def upsert_user_def
        upsert_rows_def)
qed

lemma fetch_overwritten:
  assumes "\<not> db_select_ok env" "find (\<lambda>u. phone_number u = from) (users w) = Some u"
  shows "fetch_or_create env from w =
           (Inr (u\<lparr>language_step := ''ui'', plan := Some ''FREE'', free_used := 0\<rparr>),
            w\<lparr>users := update_rows (\<lambda>u. phone_number u = from)
                 (\<lambda>u. u\<lparr>language_step := ''ui'', plan := Some ''FREE'', free_used := 0\<rparr>)
                 (users w)\<rparr>)"
proof -
  have "find (\<lambda>u. phone_number u = from) (update_rows (\<lambda>u. phone_number u = from)
          (\<lambda>u. u\<lparr>language_step := ''ui'', plan := Some ''FREE'', free_used := 0\<rparr>) (users w))
        = Some (u\<lparr>language_step := ''ui'', plan := Some ''FREE'', free_used := 0\<rparr>)"
    using assms(2) by (simp add: find_update_rows)
  then show ?thesis using assms find_Some_row[OF assms(2)]
    by (simp add: fetch_or_create_def select_user_def bind_def ret_def upsert_user_def
        upsert_rows_def)
qed

lemma handleIncoming_cases:
  assumes "handleIncoming env from txt num mediaUrl w = (r, w')"
  obtains (nofrom) "from = []" "w' = w" "r = Inr ()"
    | (known) u where "from \<noteq> []" "db_select_ok env"
        "find (\<lambda>u. phone_number u = from) (users w) = Some u"
        "route env from txt num mediaUrl u w = (r, w')"
    | (created) "from \<noteq> []" "find (\<lambda>u. phone_number u = from) (users w) = None"
        "route env from txt num mediaUrl (new_user env from)
           (w\<lparr>users := users w @ [new_user env from]\<rparr>) = (r, w')"
    | (overwritten) u where "from \<noteq> []" "\<not> db_select_ok env"
        "find (\<lambda>u. phone_number u = from) (users w) = Some u"
        "route env from txt num mediaUrl
           (u\<lparr>language_step := ''ui'', plan := Some ''FREE'', free_used := 0\<rparr>)
           (w\<lparr>users := update_rows (\<lambda>u. phone_number u = from)
                 (\<lambda>u. u\<lparr>language_step := ''ui'', plan := Some ''FREE'', free_used := 0\<rparr>)
                 (users w)\<rparr>) = (r, w')"
proof (cases "from = []")
  case True
  then show ?thesis using assms nofrom by (simp add: handleIncoming_def ret_def)
next
  case False
  show ?thesis
  proof (cases "find (\<lambda>u. phone_number u = from) (users w)")
    case (Some u)
    show ?thesis
    proof (cases "db_select_ok env")
      case True
      then show ?thesis using assms False known Some fetch_known[OF True Some]
        by (simp add: handleIncoming_def bind_def)
    next
      case no: False
      then show ?thesis using assms False overwritten[OF False no Some] fetch_overwritten[OF no Some]
        by (simp add: handleIncoming_def bind_def)
    qed
  next
    case None
    then show ?thesis using assms False created fetch_created[OF None]
      by (simp add: handleIncoming_def bind_def)
  qed
qed

lemma route_wizard_rows:
  assumes "route env from txt num mediaUrl u w = (r, w')" "language_step u = ''ui''"
  shows "translation_rows w' = translation_rows w"
proof -
  have "keeps translation_rows (route env from txt num mediaUrl u)"
    unfolding route_def using assms(2)
    by (auto intro!: keeps_if keeps_paywall_quick_reply keeps_seq keeps_update_users keeps_sendMessage
        simp: reset_cmd_def paywall_gate_def step_ui_def split: option.split)
  then show ?thesis using assms(1) by (rule keepsD2)
qed

lemma route_cases:
  assumes "route env from txt num mediaUrl u w = (r, w')"
  obtains (billing) "test_1to3 txt" "isFree u" "free_used u \<ge> 5"
        "paywall_quick_reply env from txt u w = (r, w')"
    | (reset) "test_reset txt" "reset_cmd env from w = (r, w')"
    | (paywall) "\<not> test_reset txt" "isFree u" "free_used u \<ge> 5"
        "paywall_gate env from u w = (r, w')"
    | (ui) "\<not> (isFree u \<and> free_used u \<ge> 5)" "\<not> test_reset txt" "language_step u = ''ui''"
        "step_ui env from txt w = (r, w')"
    | (target) "\<not> (isFree u \<and> free_used u \<ge> 5)" "\<not> test_reset txt" "language_step u = ''target''"
        "step_target env from txt u w = (r, w')"
    | (gender) "\<not> (isFree u \<and> free_used u \<ge> 5)" "\<not> test_reset txt" "language_step u = ''gender''"
        "step_gender env from txt u w = (r, w')"
    | (incomplete) "\<not> (isFree u \<and> free_used u \<ge> 5)" "\<not> test_reset txt"
        "sendMessage env from SetupIncomplete None w = (r, w')"
    | (pipeline) s t g where "\<not> (isFree u \<and> free_used u \<ge> 5)" "\<not> test_reset txt"
        "language_step u \<notin> {''ui'', ''target'', ''gender''}"
        "source_lang u = Some s" "target_lang u = Some t" "voice_gender u = Some g"
        "s \<noteq> []" "t \<noteq> []" "g \<noteq> []"
        "translation_phase env from txt num mediaUrl u s t g w = (r, w')"
  using assms unfolding route_def
  by (auto split: if_splits option.splits)

section \<open>The destination of a translation\<close>

text \<open>
  Claim C1 (destination-flip rule). Take a user whose \<open>source_lang\<close> and \<open>target_lang\<close>
  are set, as they are for every user who finished the wizard. Whatever the services
  answer, and whether the read of the row succeeds or fails (a run whose read fails logs
  nothing), one run of \<open>handleIncoming\<close> logs at most one translation, and a logged
  translation went to \<open>source_lang\<close> when the detected language of the original equals
  \<open>target_lang\<close> and to \<open>target_lang\<close> otherwise: the row carries that destination, and its
  translated text is what the translator returned for that destination.
\<close>

theorem destination_flip_rule:
  assumes "find (\<lambda>r. phone_number r = from) (users w) = Some u"
    and "source_lang u = Some s" and "target_lang u = Some t"
    and "handleIncoming env from txt num mediaUrl w = (r, w')"
  shows "translation_rows w' = translation_rows w \<or>
         (\<exists>row c. translation_rows w' = translation_rows w @ [row]
            \<and> language_to row = (if language_from row = t then s else t)
            \<and> chat_completion env (original_text row) (language_to row) = Some c
            \<and> translated_text row = trim c)"
  using assms(4)
proof (cases rule: handleIncoming_cases)
  case nofrom
  then show ?thesis by simp
next
  case created
  then show ?thesis using assms(1) by simp
next
  case (overwritten u')
  then show ?thesis using route_wizard_rows[OF overwritten(4)] by simp
next
  case (known u')
  then have u': "u' = u" using assms(1) by simp
  from known(4) show ?thesis
  proof (cases rule: route_cases)
    case billing
    then show ?thesis using keepsD2[OF keeps_paywall_quick_reply, of translation_rows] by simp
  next
    case reset
    then show ?thesis
      using keepsD2[of translation_rows "reset_cmd env from" w r w']
      by (simp add: reset_cmd_def keeps_seq keeps_update_users keeps_sendMessage)
  next
    case paywall
    then show ?thesis
      using keepsD2[of translation_rows "paywall_gate env from u'" w r w']
      by (simp add: paywall_gate_def keeps_sendMessage)
  next
    case ui
    then show ?thesis
      using keepsD2[of translation_rows "step_ui env from txt" w r w']
      by (simp add: step_ui_def keeps_seq keeps_update_users keeps_sendMessage split: option.split)
  next
    case target
    then show ?thesis
      using keepsD2[of translation_rows "step_target env from txt u'" w r w']
      by (simp add: step_target_def Let_def keeps_seq keeps_update_users keeps_sendMessage split: option.split)
  next
    case gender
    then show ?thesis
      using keepsD2[of translation_rows "step_gender env from txt u'" w r w']
      by (simp add: step_gender_def Let_def keeps_seq keeps_update_users keeps_sendMessage split: option.split)
  next
    case incomplete
    then show ?thesis
      using keepsD2[of translation_rows "sendMessage env from SetupIncomplete None" w r w']
      by (simp add: keeps_sendMessage)
  next
    case (pipeline s' t' g)
    then have "s' = s" "t' = t" using u' assms(2,3) by simp_all
    then show ?thesis using translation_phase_rows[OF pipeline(10)] by (simp add: destination_def)
  qed
qed


text \<open>
  With \<open>source_lang = en\<close> and \<open>target_lang = es\<close>: a text detected as \<open>es\<close> is translated
  to \<open>en\<close>, a text detected as \<open>fr\<close> is translated to \<open>es\<close>.
\<close>

theorem destination_flip_rule_witness:
  "find (\<lambda>r. phone_number r = ''+1555'') (users (world_of [sample_user])) = Some sample_user
   \<and> source_lang sample_user = Some ''en'' \<and> target_lang sample_user = Some ''es''
   \<and> map (\<lambda>row. (language_from row, language_to row))
        (translation_rows (snd (handleIncoming env_ok ''+1555'' ''Hola'' 0 None (world_of [sample_user]))))
       = [(''es'', ''en'')]
   \<and> map (\<lambda>row. (language_from row, language_to row))
        (translation_rows (snd (handleIncoming env_ok ''+1555'' ''Bonjour'' 0 None (world_of [sample_user]))))
       = [(''fr'', ''es'')]"
proof -
  let ?w = "world_of [sample_user]"
  have f: "find (\<lambda>r. phone_number r = ''+1555'') (users ?w) = Some sample_user"
    by (simp add: world_of_def sample_user_def)
  have s: "source_lang sample_user = Some ''en''" and t: "target_lang sample_user = Some ''es''"
    by (simp_all add: sample_user_def)
  have empty: "translation_rows ?w = []" by (simp add: world_of_def)
  have sent: "translation_rows (snd (handleIncoming env_ok ''+1555'' ''Hola'' 0 None ?w)) \<noteq> []"
    "translation_rows (snd (handleIncoming env_ok ''+1555'' ''Bonjour'' 0 None ?w)) \<noteq> []"
    "map language_from (translation_rows (snd (handleIncoming env_ok ''+1555'' ''Hola'' 0 None ?w))) = [''es'']"
    "map language_from (translation_rows (snd (handleIncoming env_ok ''+1555'' ''Bonjour'' 0 None ?w))) = [''fr'']"
    by code_simp+
  have a: "map (\<lambda>row. (language_from row, language_to row))
        (translation_rows (snd (handleIncoming env_ok ''+1555'' ''Hola'' 0 None ?w))) = [(''es'', ''en'')]"
    using destination_flip_rule[OF f s t surjective_pairing, of env_ok "''Hola''" 0 None] sent(1,3) empty
    by auto
  have b: "map (\<lambda>row. (language_from row, language_to row))
        (translation_rows (snd (handleIncoming env_ok ''+1555'' ''Bonjour'' 0 None ?w))) = [(''fr'', ''es'')]"
    using destination_flip_rule[OF f s t surjective_pairing, of env_ok "''Bonjour''" 0 None] sent(2,4) empty
    by auto
  show ?thesis using f s t a b by simp
qed

section \<open>The signature of a billing request\<close>

text \<open>
  Claim C6. A request whose signature does not verify (\<open>constructEvent\<close> throws) is answered
  with status 400 and leaves the whole world, every user row included, as it was. Whenever
  the webhook changes a user row, the signature verified and the event is one of the two
  the handler processes.
\<close>

theorem invalid_signature_rejected:
  "(stripe_constructEvent env raw_body signature (STRIPE_WEBHOOK_SECRET env) = None
      \<longrightarrow> stripe_webhook env raw_body signature w = (SendStatus 400, w))
   \<and> (users (snd (stripe_webhook env raw_body signature w)) \<noteq> users w
      \<longrightarrow> (\<exists>event. stripe_constructEvent env raw_body signature (STRIPE_WEBHOOK_SECRET env) = Some event
             \<and> fst (stripe_webhook env raw_body signature w) = JsonReceived
             \<and> (ev_type event = ''checkout.session.completed''
                  \<or> ev_type event = ''customer.subscription.deleted'')))"
  by (cases "stripe_constructEvent env raw_body signature (STRIPE_WEBHOOK_SECRET env)")
     (auto simp: stripe_webhook_def Let_def)

theorem invalid_signature_rejected_witness:
  "stripe_constructEvent env_ok ''checkout.session.completed'' (Some ''forged'') (STRIPE_WEBHOOK_SECRET env_ok) = None
   \<and> stripe_webhook env_ok ''checkout.session.completed'' (Some ''forged'')
        (world_of [sample_user\<lparr>stripe_cust_id := Some ''cus_1''\<rparr>])
      = (SendStatus 400, world_of [sample_user\<lparr>stripe_cust_id := Some ''cus_1''\<rparr>])
   \<and> users (snd (stripe_webhook env_ok ''checkout.session.completed'' (Some ''good'')
        (world_of [sample_user\<lparr>stripe_cust_id := Some ''cus_1''\<rparr>])))
      \<noteq> users (world_of [sample_user\<lparr>stripe_cust_id := Some ''cus_1''\<rparr>])
   \<and> stripe_constructEvent env_ok ''checkout.session.completed'' (Some ''good'') (STRIPE_WEBHOOK_SECRET env_ok)
      = Some (sample_event ''checkout.session.completed'')"
proof -
  let ?w = "world_of [sample_user\<lparr>stripe_cust_id := Some ''cus_1''\<rparr>]"
  have bad: "stripe_constructEvent env_ok ''checkout.session.completed'' (Some ''forged'') (STRIPE_WEBHOOK_SECRET env_ok) = None"
    by (simp add: env_ok_def)
  have good: "stripe_constructEvent env_ok ''checkout.session.completed'' (Some ''good'') (STRIPE_WEBHOOK_SECRET env_ok)
      = Some (sample_event ''checkout.session.completed'')"
    by (simp add: env_ok_def)
  have changed: "map free_used (users (snd (stripe_webhook env_ok ''checkout.session.completed'' (Some ''good'') ?w)))
      \<noteq> map free_used (users ?w)"
    by code_simp
  then have changed': "users (snd (stripe_webhook env_ok ''checkout.session.completed'' (Some ''good'') ?w))
      \<noteq> users ?w" by metis
  show ?thesis
    using invalid_signature_rejected[of env_ok "''checkout.session.completed''" "Some ''forged''" ?w]
          invalid_signature_rejected[of env_ok "''checkout.session.completed''" "Some ''good''" ?w]
          bad good changed'
    by blast
qed

section \<open>Row updates and the tests on the text\<close>

lemma list_all2_update_rows:
  "(\<And>r. r \<in> set us \<Longrightarrow> R r (if p r then f r else r)) \<Longrightarrow> list_all2 R us (update_rows p f us)"
  by (induction us) (auto simp: update_rows_def)

lemma list_all2_trans_rows:
  "list_all2 R us vs \<Longrightarrow> list_all2 S vs ws \<Longrightarrow> (\<And>a b c. R a b \<Longrightarrow> S b c \<Longrightarrow> T a c)
   \<Longrightarrow> list_all2 T us ws"
  by (rule list_all2_trans[of R S T]) auto

lemma unique_phone:
  assumes "distinct (map phone_number us)" "find (\<lambda>r. phone_number r = from) us = Some u"
    "r \<in> set us" "phone_number r = from"
  shows "r = u"
proof -
  from assms(2) have "u \<in> set us" "phone_number u = from"
    by (auto simp: find_Some_iff)
  moreover have "inj_on phone_number (set us)" using assms(1) by (simp add: distinct_map)
  ultimately show ?thesis using assms(3,4) by (auto dest: inj_onD)
qed

lemma update_rows_idem:
  "(\<And>r. p (f r) = p r) \<Longrightarrow> (\<And>r. f (f r) = f r)
   \<Longrightarrow> update_rows p f (update_rows p f us) = update_rows p f us"
  by (induction us) (auto simp: update_rows_def)

lemma test_reset_length: "test_reset s \<Longrightarrow> length s = 5 \<or> length s = 15"
  unfolding test_reset_def test_exact_i_def
  by (auto dest!: map_eq_imp_length_eq)

lemma test_1to3_length: "test_1to3 s \<Longrightarrow> length s = 1"
  by (auto simp: test_1to3_def split: list.splits)

lemma reset_not_billing: "test_reset s \<Longrightarrow> \<not> test_1to3 s"
  using test_reset_length test_1to3_length by fastforce

lemma route_reset: "test_reset txt \<Longrightarrow> route env from txt num mediaUrl u = reset_cmd env from"
  by (simp add: route_def reset_not_billing)

lemma reset_cmd_sent:
  "twilio_create env from (Body WelcomeMenu) \<Longrightarrow>
   reset_cmd env from w =
     (Inr (), w\<lparr>users := update_rows (\<lambda>r. phone_number r = from)
            (\<lambda>r. r\<lparr>language_step := ''ui'', source_lang := None, target_lang := None,
                    voice_gender := None, ui_lang := None\<rparr>) (users w),
          outbox := outbox w @ [(from, Body WelcomeMenu)]\<rparr>)"
  by (simp add: reset_cmd_def seq_def bind_def update_users_def modify_def sendMessage_def truthy_def)

section \<open>Reset\<close>

lemma handleIncoming_reset:
  assumes "from \<noteq> []" "test_reset txt" "twilio_create env from (Body WelcomeMenu)"
  shows "handleIncoming env from txt num mediaUrl w =
     (Inr (), w\<lparr>users := update_rows (\<lambda>r. phone_number r = from)
            (\<lambda>r. r\<lparr>language_step := ''ui'', source_lang := None, target_lang := None,
                    voice_gender := None, ui_lang := None\<rparr>)
            (if find (\<lambda>r. phone_number r = from) (users w) = None
             then users w @ [new_user env from]
             else if db_select_ok env then users w
             else update_rows (\<lambda>u. phone_number u = from)
                    (\<lambda>u. u\<lparr>language_step := ''ui'', plan := Some ''FREE'', free_used := 0\<rparr>)
                    (users w)),
          outbox := outbox w @ [(from, Body WelcomeMenu)]\<rparr>)"
proof (cases "find (\<lambda>r. phone_number r = from) (users w)")
  case (Some u)
  show ?thesis
  proof (cases "db_select_ok env")
    case True
    then show ?thesis using assms Some fetch_known[OF True Some]
      by (simp add: handleIncoming_def bind_def route_reset reset_cmd_sent)
  next
    case False
    then show ?thesis using assms Some fetch_overwritten[OF False Some]
      by (simp add: handleIncoming_def bind_def route_reset reset_cmd_sent)
  qed
next
  case None
  then show ?thesis using assms fetch_created[OF None]
    by (simp add: handleIncoming_def bind_def route_reset reset_cmd_sent)
qed

lemma update_rows_forall:
  assumes "\<And>r. p (f r) = p r" "\<And>r. Q (f r)"
  shows "\<forall>u \<in> set (update_rows p f us). p u \<longrightarrow> Q u"
  using assms by (induction us) (simp_all add: update_rows_def)

text \<open>
  Claim C5. From every state of the tables, for a known or an unknown sender, a message that
  matches \<open>/^(reset|change language)$/i\<close> returns normally, puts every row of the sender in
  step \<open>ui\<close> (the initial step) with \<open>source_lang\<close>, \<open>target_lang\<close>, \<open>voice_gender\<close> and \<open>ui_lang\<close>
  cleared, and sends the welcome menu, which is the same text in every language setting.
  A second reset leaves the user rows as the first one made them and sends the same menu
  again. The sends are assumed to succeed, and so is the read of the row in the second
  run; the first run may be one whose read fails. (The webhook route sends one more
  welcome of its own to a sender it has never seen; that is outside \<open>handleIncoming\<close>.)
\<close>

theorem reset_total_and_idempotent:
  assumes "from \<noteq> []" and "test_reset txt" and "test_reset txt2"
    and "twilio_create env from (Body WelcomeMenu)" and "twilio_create env2 from (Body WelcomeMenu)"
    and "handleIncoming env from txt num mediaUrl w = (r1, w1)"
    and "handleIncoming env2 from txt2 num2 mediaUrl2 w1 = (r2, w2)"
    and "db_select_ok env2"
  shows "r1 = Inr () \<and> outbox w1 = outbox w @ [(from, Body WelcomeMenu)]
     \<and> (\<exists>u. find (\<lambda>r. phone_number r = from) (users w1) = Some u)
     \<and> (\<forall>u \<in> set (users w1). phone_number u = from \<longrightarrow>
           language_step u = ''ui'' \<and> source_lang u = None \<and> target_lang u = None
           \<and> voice_gender u = None \<and> ui_lang u = None)
     \<and> r2 = Inr () \<and> users w2 = users w1 \<and> outbox w2 = outbox w1 @ [(from, Body WelcomeMenu)]"
proof -
  let ?p = "\<lambda>r. phone_number r = from"
  let ?f = "\<lambda>r. r\<lparr>language_step := ''ui'', source_lang := None, target_lang := None,
                    voice_gender := None, ui_lang := None\<rparr>"
  let ?g = "\<lambda>u. u\<lparr>language_step := ''ui'', plan := Some ''FREE'', free_used := 0\<rparr>"
  let ?us = "if find ?p (users w) = None then users w @ [new_user env from]
             else if db_select_ok env then users w else update_rows ?p ?g (users w)"
  have eq1: "(r1, w1) = (Inr (), w\<lparr>users := update_rows ?p ?f ?us,
          outbox := outbox w @ [(from, Body WelcomeMenu)]\<rparr>)"
    using handleIncoming_reset[OF assms(1,2,4), of num mediaUrl w] assms(6) by simp
  have r1: "r1 = Inr ()" using eq1 by simp
  have w1: "w1 = w\<lparr>users := update_rows ?p ?f ?us, outbox := outbox w @ [(from, Body WelcomeMenu)]\<rparr>"
    using eq1 by simp
  have us1: "users w1 = update_rows ?p ?f ?us" by (simp add: w1)
  have ob1: "outbox w1 = outbox w @ [(from, Body WelcomeMenu)]" by (simp add: w1)
  have "\<exists>u0. find ?p ?us = Some u0"
  proof (cases "find ?p (users w)")
    case None
    then show ?thesis
      using find_append_new[of ?p "users w" "new_user env from"] by (simp add: new_user_def)
  next
    case (Some a)
    then show ?thesis using find_update_rows[of ?p ?g "users w"] by simp
  qed
  then obtain u0 where u0: "find ?p ?us = Some u0" ..
  have found: "find ?p (users w1) = Some (?f u0)"
    unfolding us1 using u0 find_update_rows[of ?p ?f ?us] by simp
  have cleared: "\<forall>u \<in> set (users w1). phone_number u = from \<longrightarrow>
           language_step u = ''ui'' \<and> source_lang u = None \<and> target_lang u = None
           \<and> voice_gender u = None \<and> ui_lang u = None"
    unfolding us1 by (rule update_rows_forall) simp_all
  have eq2: "(r2, w2) = (Inr (), w1\<lparr>users := update_rows ?p ?f (users w1),
          outbox := outbox w1 @ [(from, Body WelcomeMenu)]\<rparr>)"
    using handleIncoming_reset[OF assms(1,3,5), of num2 mediaUrl2 w1] assms(7,8) found by simp
  have r2: "r2 = Inr ()" using eq2 by simp
  have w2: "w2 = w1\<lparr>users := update_rows ?p ?f (users w1),
          outbox := outbox w1 @ [(from, Body WelcomeMenu)]\<rparr>" using eq2 by simp
  have us2: "users w2 = update_rows ?p ?f (users w1)" by (simp add: w2)
  have ob2: "outbox w2 = outbox w1 @ [(from, Body WelcomeMenu)]" by (simp add: w2)
  have same: "users w2 = users w1"
    unfolding us2 us1 by (rule update_rows_idem) simp_all
  show ?thesis
    using r1 ob1 found cleared r2 same ob2 by (intro conjI exI[of _ "?f u0"]) 
qed


theorem reset_total_and_idempotent_witness:
  "''+1555'' \<noteq> [] \<and> test_reset ''ReSeT'' \<and> test_reset ''Change Language''
   \<and> twilio_create env_ok ''+1555'' (Body WelcomeMenu) \<and> db_select_ok env_ok
   \<and> users (snd (handleIncoming env_ok ''+1555'' ''ReSeT'' 0 None (world_of [sample_user])))
       = [sample_user\<lparr>language_step := ''ui'', source_lang := None, target_lang := None,
                      voice_gender := None, ui_lang := None\<rparr>]
   \<and> users (snd (handleIncoming env_ok ''+1555'' ''Change Language'' 0 None
                  (snd (handleIncoming env_ok ''+1555'' ''ReSeT'' 0 None (world_of [sample_user])))))
       = users (snd (handleIncoming env_ok ''+1555'' ''ReSeT'' 0 None (world_of [sample_user])))
   \<and> outbox (snd (handleIncoming env_ok ''+1555'' ''Change Language'' 0 None
                  (snd (handleIncoming env_ok ''+1555'' ''ReSeT'' 0 None (world_of [sample_user])))))
       = [(''+1555'', Body WelcomeMenu), (''+1555'', Body WelcomeMenu)]"
proof -
  let ?w = "world_of [sample_user]"
  have a: "''+1555'' \<noteq> []" by simp
  have b: "test_reset ''ReSeT''" "test_reset ''Change Language''" by code_simp+
  have c: "twilio_create env_ok ''+1555'' (Body WelcomeMenu)" by (simp add: env_ok_def)
  have d: "users (snd (handleIncoming env_ok ''+1555'' ''ReSeT'' 0 None ?w))
       = [sample_user\<lparr>language_step := ''ui'', source_lang := None, target_lang := None,
                      voice_gender := None, ui_lang := None\<rparr>]"
    by code_simp
  have e: "outbox ?w = []" by (simp add: world_of_def)
  have ok: "db_select_ok env_ok" by (simp add: env_ok_def)
  show ?thesis
    using reset_total_and_idempotent[OF a b c c surjective_pairing surjective_pairing ok,
        of 0 None ?w 0 None] a b c d e ok
    by simp
qed

section \<open>The paywall gate and the wizard\<close>

text \<open>
  Claim C2, as the code has it. The handler tests the paywall gate before the wizard steps.
  For a known sender in a wizard step (\<open>ui\<close>, \<open>target\<close> or \<open>gender\<close>), a message that is
  neither a reset nor a billing quick reply goes to the paywall message when the user is
  on the free plan with \<open>free_used \<ge> 5\<close>, and to the wizard step of the user otherwise.
  The row of the sender is the one the handler has read (\<open>db_select_ok\<close>).
\<close>

theorem paywall_gate_precedes_wizard:
  assumes "from \<noteq> []" and "find (\<lambda>r. phone_number r = from) (users w) = Some u"
    and "\<not> test_reset txt" and "\<not> (test_1to3 txt \<and> isFree u \<and> free_used u \<ge> 5)"
    and "language_step u \<in> {''ui'', ''target'', ''gender''}"
    and "db_select_ok env"
  shows "handleIncoming env from txt num mediaUrl w =
           (if isFree u \<and> free_used u \<ge> 5 then paywall_gate env from u w
            else if language_step u = ''ui'' then step_ui env from txt w
            else if language_step u = ''target'' then step_target env from txt u w
            else step_gender env from txt u w)"
proof -
  have "handleIncoming env from txt num mediaUrl w = route env from txt num mediaUrl u w"
    using assms(1) fetch_known[OF assms(6,2)]
    by (simp add: handleIncoming_def bind_def)
  also have "\<dots> = (if isFree u \<and> free_used u \<ge> 5 then paywall_gate env from u w
            else if language_step u = ''ui'' then step_ui env from txt w
            else if language_step u = ''target'' then step_target env from txt u w
            else step_gender env from txt u w)"
    using assms(3,4,5) unfolding route_def by auto
  finally show ?thesis .
qed

theorem paywall_gate_precedes_wizard_witness:
  "find (\<lambda>r. phone_number r = ''+1555'')
        (users (world_of [sample_user\<lparr>language_step := ''gender'', voice_gender := None\<rparr>]))
     = Some (sample_user\<lparr>language_step := ''gender'', voice_gender := None\<rparr>)
   \<and> \<not> test_reset ''female'' \<and> \<not> test_1to3 ''female'' \<and> db_select_ok env_ok
   \<and> handleIncoming env_ok ''+1555'' ''female'' 0 None
         (world_of [sample_user\<lparr>language_step := ''gender'', voice_gender := None\<rparr>])
       = step_gender env_ok ''+1555'' ''female''
           (sample_user\<lparr>language_step := ''gender'', voice_gender := None\<rparr>)
           (world_of [sample_user\<lparr>language_step := ''gender'', voice_gender := None\<rparr>])"
proof -
  let ?u = "sample_user\<lparr>language_step := ''gender'', voice_gender := None\<rparr>"
  have a: "''+1555'' \<noteq> []" by simp
  have b: "find (\<lambda>r. phone_number r = ''+1555'') (users (world_of [?u])) = Some ?u"
    by (simp add: world_of_def sample_user_def)
  have c: "\<not> test_reset ''female''" by code_simp
  have d: "\<not> test_1to3 ''female''" by code_simp
  have d': "\<not> (test_1to3 ''female'' \<and> isFree ?u \<and> free_used ?u \<ge> 5)" using d by simp
  have e: "language_step ?u \<in> {''ui'', ''target'', ''gender''}" by (simp add: sample_user_def)
  have f: "free_used sample_user = 4" by (simp add: sample_user_def)
  have g: "language_step ?u \<noteq> ''ui''" "language_step ?u \<noteq> ''target''" by (simp_all add: sample_user_def)
  have ok: "db_select_ok env_ok" by (simp add: env_ok_def)
  show ?thesis
    using paywall_gate_precedes_wizard[OF a b c d' e ok, of 0 None] b c d f g ok
    by simp
qed

text \<open>
  The claim as the specification states it fails: a free user who has used five translations
  and then sent \<open>reset\<close> is in step \<open>ui\<close>; the language name \<open>English\<close> is neither a reset nor
  a billing reply, and the answer is the paywall message, with the row unchanged, where
  the wizard step would have stored the language.
\<close>

theorem paywall_gates_wizard_counterexample:
  "language_step (sample_user\<lparr>language_step := ''ui'', ui_lang := None, source_lang := None,
        target_lang := None, voice_gender := None, free_used := 5\<rparr>) \<noteq> ''ready''
   \<and> \<not> test_reset ''English'' \<and> \<not> test_1to3 ''English''
   \<and> handleIncoming env_ok ''+1555'' ''English'' 0 None
        (world_of [sample_user\<lparr>language_step := ''ui'', ui_lang := None, source_lang := None,
            target_lang := None, voice_gender := None, free_used := 5\<rparr>])
      = (Inr (), (world_of [sample_user\<lparr>language_step := ''ui'', ui_lang := None, source_lang := None,
            target_lang := None, voice_gender := None, free_used := 5\<rparr>])
            \<lparr>outbox := [(''+1555'', Body (I18N ''en'' Paywall))]\<rparr>)
   \<and> outbox (snd (step_ui env_ok ''+1555'' ''English''
        (world_of [sample_user\<lparr>language_step := ''ui'', ui_lang := None, source_lang := None,
            target_lang := None, voice_gender := None, free_used := 5\<rparr>])))
      = [(''+1555'', Body (I18N ''en'' How)), (''+1555'', Body (MenuMsg (I18N ''en'' Receive)))]"
  by code_simp

section \<open>The quota\<close>

lemma translation_phase_effect:
  assumes "translation_phase env from txt num mediaUrl u s t g w = (r, w')"
  shows "(translation_rows w' = translation_rows w \<and> users w' = users w) \<or>
         (translation_rows w' \<noteq> translation_rows w \<and>
          users w' = (if isFree u
                      then update_rows (\<lambda>r. phone_number r = from)
                             (\<lambda>r. r\<lparr>free_used := free_used u + 1\<rparr>) (users w)
                      else users w))"
proof -
  let ?v = "\<lambda>w. (translation_rows w, users w)"
  let ?first = "(if num > 0 \<and> truthy mediaUrl then media_branch env (or_else mediaUrl [])
           else if txt \<noteq> [] then bind (detectLang env txt) (\<lambda>d. ret (txt, take 2 d))
           else ret ([], []))"
  have kf: "keeps ?v ?first"
    by (simp add: keeps_media_branch keeps_bind keeps_detectLang keeps_ret)
  from assms show ?thesis
    unfolding translation_phase_def
  proof (cases rule: bindE)
    case (threw e)
    then show ?thesis using keepsD[OF kf, of w] by simp
  next
    case (went x w1)
    obtain original detected where x: "x = (original, detected)" by (cases x)
    have w1: "?v w1 = ?v w" using keepsD[OF kf, of w] went(1) by simp
    show ?thesis
    proof (cases "original = []")
      case True
      then show ?thesis using went(2) x w1
          keepsD[of ?v "sendMessage env from SendTextOrVoice None" w1]
        by (simp add: keeps_sendMessage)
    next
      case False
      let ?dest = "destination detected s t"
      show ?thesis
      proof (cases "chat_completion env original ?dest")
        case None
        then show ?thesis using went(2) x w1 False
          by (simp add: Let_def translate_def bind_def throw_def)
      next
        case (Some c)
        let ?row = "\<lparr>row_id = uuid_log env, row_phone_number = from, original_text = original,
          translated_text = trim c, language_from = detected, language_to = ?dest\<rparr>"
        let ?us = "(if isFree u
                      then update_rows (\<lambda>r. phone_number r = from)
                             (\<lambda>r. r\<lparr>free_used := free_used u + 1\<rparr>) (users w1)
                      else users w1)"
        let ?w3 = "w1\<lparr>users := ?us, translation_rows := translation_rows w1 @ [?row]\<rparr>"
        have kr: "keeps ?v (reply env from num original (trim c) ?dest g)"
          by (simp add: keeps_reply)
        have "(r, w') = reply env from num original (trim c) ?dest g ?w3"
          using went(2) x False Some
          by (cases "isFree u")
             (simp_all add: Let_def translate_def bind_def ret_def seq_def logRow_def modify_def
              update_users_def)
        then have "?v w' = ?v ?w3"
          using keepsD[OF kr, of ?w3] by (metis snd_conv)
        then have "translation_rows w' = translation_rows w1 @ [?row]" "users w' = ?us"
          by simp_all
        then show ?thesis using w1 by simp
      qed
    qed
  qed
qed


lemma handleIncoming_known:
  "from \<noteq> [] \<Longrightarrow> db_select_ok env \<Longrightarrow> find (\<lambda>r. phone_number r = from) (users w) = Some u
   \<Longrightarrow> handleIncoming env from txt num mediaUrl w = route env from txt num mediaUrl u w"
  by (simp add: handleIncoming_def fetch_known bind_def)




section \<open>The gender step\<close>

lemma startsWith_length: "startsWith s p \<Longrightarrow> length p \<le> length s"
  by (induction s p rule: startsWith.induct) auto

lemma str_includes_length: "str_includes s p \<Longrightarrow> length p \<le> length s"
  by (induction s) (auto dest: startsWith_length)

lemma test_i_length: "test_i pat s \<Longrightarrow> length pat \<le> length s"
  unfolding test_i_def by (drule str_includes_length) simp

lemma test_female_length: "test_female s \<Longrightarrow> 6 \<le> length s"
  unfolding test_female_def by (auto dest: test_i_length)

lemma female_not_billing: "test_female s \<Longrightarrow> \<not> test_1to3 s"
  using test_female_length test_1to3_length by fastforce

lemma canon_reset: "map canonicalize ''reset'' = ''RESET''"
  by code_simp

lemma canon_change: "map canonicalize ''change language'' = ''CHANGE LANGUAGE''"
  by code_simp

lemma canon_patterns:
  "map canonicalize ''female'' = ''FEMALE''" "map canonicalize ''femenina'' = ''FEMENINA''"
  "map canonicalize ''weiblich'' = ''WEIBLICH''" "map canonicalize ''male'' = ''MALE''"
  by code_simp+

lemma female_not_reset: "test_female s \<Longrightarrow> \<not> test_reset s"
proof
  assume f: "test_female s" and r: "test_reset s"
  from r have "map canonicalize s = ''RESET'' \<or> map canonicalize s = ''CHANGE LANGUAGE''"
    by (simp only: test_reset_def test_exact_i_def canon_reset canon_change)
  moreover have "\<not> str_includes ''RESET'' ''FEMALE''" "\<not> str_includes ''RESET'' ''FEMENINA''"
    "\<not> str_includes ''RESET'' ''WEIBLICH''" "\<not> str_includes ''CHANGE LANGUAGE'' ''FEMALE''"
    "\<not> str_includes ''CHANGE LANGUAGE'' ''FEMENINA''" "\<not> str_includes ''CHANGE LANGUAGE'' ''WEIBLICH''"
    by code_simp+
  moreover have "str_includes (map canonicalize s) ''FEMALE'' \<or> str_includes (map canonicalize s) ''FEMENINA''
      \<or> str_includes (map canonicalize s) ''WEIBLICH''"
    using f by (simp only: test_female_def test_i_def canon_patterns)
  ultimately show False by auto
qed

lemma startsWith_Nil: "startsWith [] p = (p = [])"
  by (cases p) simp_all

lemma startsWith_includes: "startsWith s p \<Longrightarrow> str_includes s p"
  by (cases s) (simp_all add: startsWith_Nil)

lemma startsWith_append: "startsWith s (a @ b) \<Longrightarrow> str_includes s b"
proof (induction a arbitrary: s)
  case Nil
  then show ?case by (simp add: startsWith_includes)
next
  case (Cons x xs)
  then show ?case by (cases s) auto
qed

lemma str_includes_suffix: "str_includes s (a @ b) \<Longrightarrow> str_includes s b"
  by (induction s) (auto dest: startsWith_append)

lemma female_word_is_male_word: "test_i ''female'' s \<Longrightarrow> test_i ''male'' s"
proof -
  assume "test_i ''female'' s"
  then have "str_includes (map canonicalize s) ''FEMALE''"
    by (simp only: test_i_def canon_patterns)
  then have "str_includes (map canonicalize s) (''FE'' @ ''MALE'')" by simp
  then have "str_includes (map canonicalize s) ''MALE''" by (rule str_includes_suffix)
  then show ?thesis by (simp only: test_i_def canon_patterns)
qed

lemma step_gender_chosen:
  assumes "choose_gender txt = Some g" "twilio_create env from (Body (tr (or_else (ui_lang u) ''en'') SetupDone))"
  shows "step_gender env from txt u w =
     (Inr (), w\<lparr>users := update_rows (\<lambda>r. phone_number r = from)
                   (\<lambda>r. r\<lparr>voice_gender := Some g, language_step := ''ready''\<rparr>) (users w),
               outbox := outbox w @ [(from, Body (tr (or_else (ui_lang u) ''en'') SetupDone))]\<rparr>)"
  using assms
  by (simp add: step_gender_def Let_def seq_def bind_def update_users_def modify_def
      sendMessage_def truthy_def)

lemma step_gender_reprompt:
  assumes "choose_gender txt = None" "twilio_create env from (Body (tr (or_else (ui_lang u) ''en'') GenderErr))"
  shows "step_gender env from txt u w =
     (Inr (), w\<lparr>outbox := outbox w @ [(from, Body (tr (or_else (ui_lang u) ''en'') GenderErr))]\<rparr>)"
  using assms
  by (simp add: step_gender_def Let_def modify_def sendMessage_def truthy_def)

lemma route_gender:
  "language_step u = ''gender'' \<Longrightarrow> \<not> (isFree u \<and> free_used u \<ge> 5) \<Longrightarrow> \<not> test_reset txt
   \<Longrightarrow> route env from txt num mediaUrl u = step_gender env from txt u"
  unfolding route_def by auto

text \<open>
  Claim C10. In the gender step the male tests run first and the female tests second, the
  second assignment replacing the first. So a text that matches a female pattern is stored
  as \<open>FEMALE\<close> and the step moves to \<open>ready\<close>, also when the text matches a male pattern, as
  every text with the word \<open>female\<close> does. A text that matches no test (and is not the
  reset command) gets the re-prompt and no row changes. The user is in step \<open>gender\<close> and
  not behind the paywall gate; the read of the row and the sends are assumed to succeed.
\<close>

theorem gender_step_female_overrides:
  assumes "from \<noteq> []" and "find (\<lambda>r. phone_number r = from) (users w) = Some u"
    and "language_step u = ''gender''" and "\<not> (isFree u \<and> free_used u \<ge> 5)"
    and "\<forall>b. twilio_create env from (Body b)"
    and "db_select_ok env"
  shows "choose_gender txt =
           (if txt = ''2'' \<or> test_female txt then Some ''FEMALE''
            else if txt = ''1'' \<or> test_male txt then Some ''MALE'' else None)
    \<and> (test_i ''female'' txt \<longrightarrow> test_male txt)
    \<and> (test_female txt \<longrightarrow>
          handleIncoming env from txt num mediaUrl w =
            (Inr (), w\<lparr>users := update_rows (\<lambda>r. phone_number r = from)
                   (\<lambda>r. r\<lparr>voice_gender := Some ''FEMALE'', language_step := ''ready''\<rparr>) (users w),
               outbox := outbox w @ [(from, Body (tr (or_else (ui_lang u) ''en'') SetupDone))]\<rparr>))
    \<and> (txt \<noteq> ''1'' \<and> txt \<noteq> ''2'' \<and> \<not> test_male txt \<and> \<not> test_female txt \<and> \<not> test_reset txt \<longrightarrow>
          handleIncoming env from txt num mediaUrl w =
            (Inr (), w\<lparr>outbox := outbox w @ [(from, Body (tr (or_else (ui_lang u) ''en'') GenderErr))]\<rparr>))"
proof (intro conjI impI)
  show "choose_gender txt =
           (if txt = ''2'' \<or> test_female txt then Some ''FEMALE''
            else if txt = ''1'' \<or> test_male txt then Some ''MALE'' else None)"
    by (simp add: choose_gender_def)
next
  assume "test_i ''female'' txt"
  then show "test_male txt" by (simp add: test_male_def female_word_is_male_word)
next
  assume f: "test_female txt"
  then have g: "choose_gender txt = Some ''FEMALE''" by (simp add: choose_gender_def)
  have "handleIncoming env from txt num mediaUrl w = step_gender env from txt u w"
    using handleIncoming_known[OF assms(1,6,2)] route_gender[OF assms(3,4) female_not_reset[OF f]]
    by simp
  then show "handleIncoming env from txt num mediaUrl w =
            (Inr (), w\<lparr>users := update_rows (\<lambda>r. phone_number r = from)
                   (\<lambda>r. r\<lparr>voice_gender := Some ''FEMALE'', language_step := ''ready''\<rparr>) (users w),
               outbox := outbox w @ [(from, Body (tr (or_else (ui_lang u) ''en'') SetupDone))]\<rparr>)"
    using step_gender_chosen[OF g] assms(5) by simp
next
  assume n: "txt \<noteq> ''1'' \<and> txt \<noteq> ''2'' \<and> \<not> test_male txt \<and> \<not> test_female txt \<and> \<not> test_reset txt"
  then have g: "choose_gender txt = None" by (simp add: choose_gender_def)
  have "handleIncoming env from txt num mediaUrl w = step_gender env from txt u w"
    using handleIncoming_known[OF assms(1,6,2)] route_gender[OF assms(3,4)] n
    by simp
  then show "handleIncoming env from txt num mediaUrl w =
            (Inr (), w\<lparr>outbox := outbox w @ [(from, Body (tr (or_else (ui_lang u) ''en'') GenderErr))]\<rparr>)"
    using step_gender_reprompt[OF g] assms(5) by simp
qed

theorem gender_step_female_overrides_witness:
  "find (\<lambda>r. phone_number r = ''+1555'')
        (users (world_of [sample_user\<lparr>language_step := ''gender'', voice_gender := None\<rparr>]))
     = Some (sample_user\<lparr>language_step := ''gender'', voice_gender := None\<rparr>)
   \<and> test_female ''Female'' \<and> test_male ''Female'' \<and> choose_gender ''Female'' = Some ''FEMALE''
   \<and> db_select_ok env_ok
   \<and> handleIncoming env_ok ''+1555'' ''Female'' 0 None
         (world_of [sample_user\<lparr>language_step := ''gender'', voice_gender := None\<rparr>])
       = (Inr (), (world_of [sample_user\<lparr>language_step := ''ready'', voice_gender := Some ''FEMALE''\<rparr>])
                   \<lparr>outbox := [(''+1555'', Body (I18N ''en'' SetupDone))]\<rparr>)
   \<and> \<not> test_male ''hello'' \<and> \<not> test_female ''hello'' \<and> \<not> test_reset ''hello''
   \<and> handleIncoming env_ok ''+1555'' ''hello'' 0 None
         (world_of [sample_user\<lparr>language_step := ''gender'', voice_gender := None\<rparr>])
       = (Inr (), (world_of [sample_user\<lparr>language_step := ''gender'', voice_gender := None\<rparr>])
                   \<lparr>outbox := [(''+1555'', Body (I18N ''en'' GenderErr))]\<rparr>)"
proof -
  let ?u = "sample_user\<lparr>language_step := ''gender'', voice_gender := None\<rparr>"
  let ?w = "world_of [?u]"
  have a: "''+1555'' \<noteq> []" by simp
  have b: "find (\<lambda>r. phone_number r = ''+1555'') (users ?w) = Some ?u"
    by (simp add: world_of_def sample_user_def)
  have c: "language_step ?u = ''gender''" by simp
  have d: "\<not> (isFree ?u \<and> free_used ?u \<ge> 5)" by (simp add: sample_user_def)
  have e: "\<forall>b. twilio_create env_ok ''+1555'' (Body b)" by (simp add: env_ok_def)
  have f: "test_female ''Female''" "test_male ''Female''" "\<not> test_male ''hello''"
    "\<not> test_female ''hello''" "\<not> test_reset ''hello''" "choose_gender ''Female'' = Some ''FEMALE''"
    by code_simp+
  have g: "or_else (ui_lang ?u) ''en'' = ''en''" "tr ''en'' SetupDone = I18N ''en'' SetupDone"
    "tr ''en'' GenderErr = I18N ''en'' GenderErr"
    by (simp_all add: sample_user_def or_else_def tr_def)
  have h: "update_rows (\<lambda>r. phone_number r = ''+1555'')
             (\<lambda>r. r\<lparr>voice_gender := Some ''FEMALE'', language_step := ''ready''\<rparr>) (users ?w)
           = [sample_user\<lparr>language_step := ''ready'', voice_gender := Some ''FEMALE''\<rparr>]"
    by (simp add: update_rows_def world_of_def sample_user_def)
  have i: "''hello'' \<noteq> ''1''" "''hello'' \<noteq> ''2''" by simp_all
  have ok: "db_select_ok env_ok" by (simp add: env_ok_def)
  have first: "handleIncoming env_ok ''+1555'' ''Female'' 0 None ?w
       = (Inr (), (world_of [sample_user\<lparr>language_step := ''ready'', voice_gender := Some ''FEMALE''\<rparr>])
                   \<lparr>outbox := [(''+1555'', Body (I18N ''en'' SetupDone))]\<rparr>)"
    using gender_step_female_overrides[OF a b c d e ok, of "''Female''" 0 None] f(1) g h
    by (simp add: world_of_def)
  have second: "handleIncoming env_ok ''+1555'' ''hello'' 0 None ?w
       = (Inr (), ?w\<lparr>outbox := [(''+1555'', Body (I18N ''en'' GenderErr))]\<rparr>)"
    using gender_step_female_overrides[OF a b c d e ok, of "''hello''" 0 None] f(3,4,5) g i
    by (simp add: world_of_def)
  show ?thesis using b f first second ok by simp
qed

section \<open>Where \<open>free_used\<close> changes\<close>

lemma list_all2_same: "(\<And>x. x \<in> set xs \<Longrightarrow> R x x) \<Longrightarrow> list_all2 R xs xs"
  by (simp add: list_all2_same)

lemma route_quota:
  assumes "route env from txt num mediaUrl u w = (r, w')"
  shows "quota_view w' = quota_view w \<or>
         (language_step u \<notin> {''ui'', ''target'', ''gender''} \<and>
          users w' = update_rows (\<lambda>r. phone_number r = from)
                       (\<lambda>r. r\<lparr>free_used := free_used u + 1\<rparr>) (users w))"
  using assms
proof (cases rule: route_cases)
  case billing
  then show ?thesis
    using keepsD2[OF keeps_paywall_quick_reply, of quota_view]
    by (simp add: quota_view_def map_update_rows)
next
  case reset
  then show ?thesis
    using keepsD2[of quota_view "reset_cmd env from" w r w']
    by (simp add: reset_cmd_def keeps_seq keeps_update_users keeps_sendMessage quota_view_def
        map_update_rows)
next
  case paywall
  then show ?thesis
    using keepsD2[of quota_view "paywall_gate env from u" w r w']
    by (simp add: paywall_gate_def keeps_sendMessage quota_view_def)
next
  case ui
  then show ?thesis
    using keepsD2[of quota_view "step_ui env from txt" w r w']
    by (simp add: step_ui_def keeps_seq keeps_update_users keeps_sendMessage quota_view_def
        map_update_rows split: option.split)
next
  case target
  then show ?thesis
    using keepsD2[of quota_view "step_target env from txt u" w r w']
    by (simp add: step_target_def Let_def keeps_seq keeps_update_users keeps_sendMessage
        quota_view_def map_update_rows split: option.split)
next
  case gender
  then show ?thesis
    using keepsD2[of quota_view "step_gender env from txt u" w r w']
    by (simp add: step_gender_def Let_def keeps_seq keeps_update_users keeps_sendMessage
        quota_view_def map_update_rows split: option.split)
next
  case incomplete
  then show ?thesis
    using keepsD2[of quota_view "sendMessage env from SetupIncomplete None" w r w']
    by (simp add: keeps_sendMessage quota_view_def)
next
  case (pipeline s t g)
  then show ?thesis using translation_phase_effect[OF pipeline(10)]
    by (auto simp: quota_view_def)
qed

lemma quota_view_eq_same:
  assumes "quota_view w' = quota_view w"
  shows "list_all2 (\<lambda>a b. free_used b = free_used a) (users w) (users w')"
proof -
  have "length (users w) = length (users w')"
    using assms by (metis length_map quota_view_def)
  moreover have "\<forall>i < length (users w). free_used (users w' ! i) = free_used (users w ! i)"
    using assms unfolding quota_view_def by (metis calculation nth_map)
  ultimately show ?thesis by (simp add: list_all2_conv_all_nth)
qed

text \<open>
  One run of \<open>handleIncoming\<close>, row by row: \<open>free_used\<close> stays, or grows by one, or, in a run
  whose read failed, the row of the sender is back at zero.
\<close>

lemma handleIncoming_quota:
  assumes "distinct (map phone_number (users w))"
    and "handleIncoming env from txt num mediaUrl w = (r, w')"
  shows "list_all2 (\<lambda>a b. free_used b = free_used a \<or> free_used b = free_used a + 1
                       \<or> (\<not> db_select_ok env \<and> phone_number a = from \<and> free_used b = 0))
           (users w) (take (length (users w)) (users w'))"
  using assms(2)
proof (cases rule: handleIncoming_cases)
  case nofrom
  then show ?thesis by (simp add: list_all2_same)
next
  case (known u)
  from route_quota[OF known(4)] show ?thesis
  proof
    assume "quota_view w' = quota_view w"
    then have "list_all2 (\<lambda>a b. free_used b = free_used a) (users w) (users w')"
      by (rule quota_view_eq_same)
    then have "list_all2 (\<lambda>a b. free_used b = free_used a \<or> free_used b = free_used a + 1
                       \<or> (\<not> db_select_ok env \<and> phone_number a = from \<and> free_used b = 0))
           (users w) (users w')"
      by (rule list_all2_mono) simp
    then show ?thesis by (simp add: list_all2_lengthD)
  next
    assume "language_step u \<notin> {''ui'', ''target'', ''gender''} \<and>
          users w' = update_rows (\<lambda>r. phone_number r = from)
                       (\<lambda>r. r\<lparr>free_used := free_used u + 1\<rparr>) (users w)"
    then have us: "users w' = update_rows (\<lambda>r. phone_number r = from)
                       (\<lambda>r. r\<lparr>free_used := free_used u + 1\<rparr>) (users w)" by simp
    have "list_all2 (\<lambda>a b. free_used b = free_used a \<or> free_used b = free_used a + 1
                       \<or> (\<not> db_select_ok env \<and> phone_number a = from \<and> free_used b = 0))
           (users w) (users w')"
      unfolding us
    proof (rule list_all2_update_rows)
      fix x assume "x \<in> set (users w)"
      then show "free_used (if phone_number x = from then x\<lparr>free_used := free_used u + 1\<rparr> else x)
                   = free_used x \<or>
                 free_used (if phone_number x = from then x\<lparr>free_used := free_used u + 1\<rparr> else x)
                   = free_used x + 1 \<or>
                 (\<not> db_select_ok env \<and> phone_number x = from \<and>
                  free_used (if phone_number x = from then x\<lparr>free_used := free_used u + 1\<rparr> else x) = 0)"
        using unique_phone[OF assms(1) known(3), of x] by auto
    qed
    then show ?thesis by (simp add: list_all2_lengthD)
  qed
next
  case created
  let ?w0 = "w\<lparr>users := users w @ [new_user env from]\<rparr>"
  have "language_step (new_user env from) = ''ui''" by (simp add: new_user_def)
  with route_quota[OF created(3)] have "quota_view w' = quota_view ?w0" by simp
  then have "list_all2 (\<lambda>a b. free_used b = free_used a) (users ?w0) (users w')"
    by (rule quota_view_eq_same)
  then have "list_all2 (\<lambda>a b. free_used b = free_used a)
           (take (length (users w)) (users ?w0)) (take (length (users w)) (users w'))"
    by (rule list_all2_takeI)
  then have "list_all2 (\<lambda>a b. free_used b = free_used a)
           (users w) (take (length (users w)) (users w'))" by simp
  then show ?thesis by (rule list_all2_mono) simp
next
  case (overwritten u)
  let ?g = "\<lambda>u. u\<lparr>language_step := ''ui'', plan := Some ''FREE'', free_used := 0\<rparr>"
  let ?w0 = "w\<lparr>users := update_rows (\<lambda>u. phone_number u = from) ?g (users w)\<rparr>"
  have "quota_view w' = quota_view ?w0" using route_quota[OF overwritten(4)] by simp
  then have 2: "list_all2 (\<lambda>a b. free_used b = free_used a) (users ?w0) (users w')"
    by (rule quota_view_eq_same)
  have 1: "list_all2 (\<lambda>a b. free_used b = free_used a \<or> (phone_number a = from \<and> free_used b = 0))
             (users w) (users ?w0)"
    by (simp add: list_all2_update_rows)
  have "list_all2 (\<lambda>a b. free_used b = free_used a \<or> free_used b = free_used a + 1
                       \<or> (\<not> db_select_ok env \<and> phone_number a = from \<and> free_used b = 0))
           (users w) (users w')"
    using 1 2 by (rule list_all2_trans_rows) (use overwritten(2) in auto)
  then show ?thesis by (simp add: list_all2_lengthD)
qed

text \<open>
  The billing events. A completed checkout rewrites the rows of the customer of the session;
  when the update answers with no row, it rewrites the row whose id is the \<open>uid\<close> of the
  session; every other row is as it was. A deleted subscription writes the plan only.
\<close>

lemma checkout_completed_rows:
  "users (checkout_completed env ev w) =
     map (\<lambda>a. if eq_col (stripe_cust_id a) (ev_customer ev)
               then a\<lparr>plan := Some (tier_plan (ev_tier ev)), free_used := 0,
                      stripe_sub_id := ev_subscription ev\<rparr>
               else if db_update_returns_rows env
                       \<and> filter (\<lambda>r. eq_col (stripe_cust_id r) (ev_customer ev)) (users w) = []
                       \<and> Some (user_id a) = ev_uid ev
               then a\<lparr>plan := Some (tier_plan (ev_tier ev)), free_used := 0,
                      stripe_cust_id := ev_customer ev, stripe_sub_id := ev_subscription ev\<rparr>
               else a) (users w)"
proof (cases "db_update_returns_rows env
                \<and> filter (\<lambda>r. eq_col (stripe_cust_id r) (ev_customer ev)) (users w) = []")
  case True
  then have none: "\<forall>a \<in> set (users w). \<not> eq_col (stripe_cust_id a) (ev_customer ev)"
    by (simp add: filter_empty_conv)
  then have same: "update_rows (\<lambda>u. eq_col (stripe_cust_id u) (ev_customer ev))
            (\<lambda>u. u\<lparr>plan := Some (tier_plan (ev_tier ev)), free_used := 0,
                    stripe_sub_id := ev_subscription ev\<rparr>) (users w) = users w"
    by (simp add: update_rows_def map_idI)
  show ?thesis
    using True none by (simp add: checkout_completed_def Let_def same) (simp add: update_rows_def)
next
  case False
  then show ?thesis
    by (auto simp: checkout_completed_def Let_def update_rows_def)
qed

lemma subscription_deleted_rows:
  "users (subscription_deleted ev w) =
     map (\<lambda>a. if eq_col (stripe_sub_id a) (ev_id ev) then a\<lparr>plan := Some ''FREE''\<rparr> else a) (users w)"
  by (simp add: subscription_deleted_def update_rows_def)

lemma stripe_webhook_quota:
  assumes "stripe_constructEvent env raw_body signature (STRIPE_WEBHOOK_SECRET env) = None
      \<or> (stripe_constructEvent env raw_body signature (STRIPE_WEBHOOK_SECRET env) = Some ev
          \<and> ev_type ev \<noteq> ''checkout.session.completed'')"
  shows "quota_view (snd (stripe_webhook env raw_body signature w)) = quota_view w"
proof -
  have "snd (stripe_webhook env raw_body signature w) = w
     \<or> snd (stripe_webhook env raw_body signature w) = subscription_deleted ev w"
    using assms by (auto simp: stripe_webhook_def Let_def)
  then show ?thesis
    by (auto simp: subscription_deleted_def quota_view_def map_update_rows)
qed

lemma loadVoices_quota: "quota_view (snd (loadVoices env w)) = quota_view w"
  by (rule keepsD[OF keeps_loadVoices]) (simp add: quota_view_def)

text \<open>
  Claim C7 does not hold of the code. The handler takes \<open>data: null\<close> for "no such user",
  also when the read failed, and then runs its upsert with \<open>free_used: 0\<close>, \<open>plan: "FREE"\<close> and
  \<open>language_step: "ui"\<close> over the row that exists. The sender below is on the free plan and
  has used all five free translations: in a run that reads the row, the message gets the
  paywall text and the row stays as it is; in a run whose read fails, the same message
  leaves the row at \<open>free_used = 0\<close> in step \<open>ui\<close>, with no billing event at all, and the
  answer is the language menu. The next message of the sender is handled as that of a user
  with five free translations left.
\<close>

theorem free_used_reset_by_failed_read:
  "map (\<lambda>u. (language_step u, plan u, free_used u)) (users (world_of [sample_user\<lparr>free_used := 5\<rparr>]))
     = [(''ready'', Some ''FREE'', 5)]
   \<and> handleIncoming env_ok ''+1555'' ''Hola'' 0 None (world_of [sample_user\<lparr>free_used := 5\<rparr>])
     = (Inr (), (world_of [sample_user\<lparr>free_used := 5\<rparr>])
                  \<lparr>outbox := [(''+1555'', Body (I18N ''en'' Paywall))]\<rparr>)
   \<and> db_select_ok env_read_fails = False
   \<and> handleIncoming env_read_fails ''+1555'' ''Hola'' 0 None (world_of [sample_user\<lparr>free_used := 5\<rparr>])
     = (Inr (), (world_of [sample_user\<lparr>language_step := ''ui'', free_used := 0\<rparr>])
                  \<lparr>outbox := [(''+1555'', Body (Lines (I18N ''en'' Reply1to5) (MenuMsg PleaseChoose)))]\<rparr>)
   \<and> map (\<lambda>u. (language_step u, plan u, free_used u))
       (users (snd (handleIncoming env_read_fails ''+1555'' ''Hola'' 0 None
                      (world_of [sample_user\<lparr>plan := Some ''ANNUAL'', free_used := 0\<rparr>]))))
     = [(''ui'', Some ''FREE'', 0)]"
  by code_simp

section \<open>The reply\<close>

lemma sendMessage_text:
  "twilio_create env to (Body b) \<Longrightarrow>
   sendMessage env to b None w = (Inr (), w\<lparr>outbox := outbox w @ [(to, Body b)]\<rparr>)"
  by (simp add: sendMessage_def truthy_def modify_def)

lemma sendMessage_media:
  "url \<noteq> [] \<Longrightarrow> twilio_create env to (MediaUrl url) \<Longrightarrow>
   sendMessage env to b (Some url) w = (Inr (), w\<lparr>outbox := outbox w @ [(to, MediaUrl url)]\<rparr>)"
  by (simp add: sendMessage_def truthy_def or_else_def modify_def)

lemma loadVoices_cong:
  "voiceCache w1 = voiceCache w2 \<Longrightarrow>
   fst (loadVoices env w1) = fst (loadVoices env w2)
   \<and> voiceCache (snd (loadVoices env w1)) = voiceCache (snd (loadVoices env w2))"
  by (simp add: loadVoices_def split: option.splits)

lemma pickVoice_cong:
  "voiceCache w1 = voiceCache w2 \<Longrightarrow>
   fst (pickVoice env l g w1) = fst (pickVoice env l g w2)
   \<and> voiceCache (snd (pickVoice env l g w1)) = voiceCache (snd (pickVoice env l g w2))"
  using loadVoices_cong[of w1 w2 env]
  by (cases "loadVoices env w1"; cases "loadVoices env w2")
     (auto simp: pickVoice_def seq_def bind_def split: sum.splits)

lemma pure_ioD: "pure_io m \<Longrightarrow> m w = (fst (m w0), w)"
  by (simp add: pure_io_def)

lemma pure_ret: "pure_io (ret x)"
  by (simp add: pure_io_def ret_def)

lemma pure_throw: "pure_io (throw e)"
  by (simp add: pure_io_def throw_def)

lemma pure_bind:
  assumes "pure_io m" "\<And>x. pure_io (k x)"
  shows "pure_io (bind m k)"
  unfolding pure_io_def
proof (intro allI)
  fix w w0
  have m: "m w = (fst (m w0), w)" "m w0 = (fst (m w0), w0)"
    using assms(1) by (simp_all add: pure_io_def)
  show "bind m k w = (fst (bind m k w0), w)"
  proof (cases "fst (m w0)")
    case (Inl e)
    then show ?thesis using m by (simp add: bind_def)
  next
    case (Inr x)
    have "k x w = (fst (k x w0), w)" using assms(2)[of x] by (simp add: pure_io_def)
    then show ?thesis using m Inr by (simp add: bind_def)
  qed
qed

lemma pure_synth: "pure_io (synth env a b)"
  by (simp add: synth_def Let_def pure_ret pure_throw split: option.split)

lemma pure_buffer: "pure_io k \<Longrightarrow> pure_io (case buf of Some b \<Rightarrow> ret b | None \<Rightarrow> k)"
  by (simp add: pure_ret split: option.split)

lemma tts_cong:
  assumes "voiceCache w1 = voiceCache w2"
  shows "fst (tts env a l g w1) = fst (tts env a l g w2)"
proof -
  let ?rest = "\<lambda>nm. bind (synth env a nm) (\<lambda>buf1.
       case buf1 of Some b \<Rightarrow> ret b | None \<Rightarrow>
     bind (synth env a l) (\<lambda>buf2.
       case buf2 of Some b \<Rightarrow> ret b | None \<Rightarrow>
     bind (synth env a ''en-US-Standard-A'') (\<lambda>buf3.
       case buf3 of Some b \<Rightarrow> ret b | None \<Rightarrow> throw TTSFailed)))"
  have pr: "\<And>nm. pure_io (?rest nm)"
    by (intro pure_bind pure_synth pure_buffer pure_throw)
  obtain r1 v1 where p1: "pickVoice env l g w1 = (r1, v1)" by (cases "pickVoice env l g w1")
  obtain r2 v2 where p2: "pickVoice env l g w2 = (r2, v2)" by (cases "pickVoice env l g w2")
  have r: "r1 = r2" using pickVoice_cong[OF assms, of env l g] p1 p2 by simp
  have t1: "tts env a l g w1 = (case r1 of Inl e \<Rightarrow> (Inl e, v1) | Inr nm \<Rightarrow> ?rest nm v1)"
    by (simp add: tts_def bind_def[of "pickVoice env l g"] p1)
  have t2: "tts env a l g w2 = (case r2 of Inl e \<Rightarrow> (Inl e, v2) | Inr nm \<Rightarrow> ?rest nm v2)"
    by (simp add: tts_def bind_def[of "pickVoice env l g"] p2)
  show ?thesis
  proof (cases r2)
    case (Inl e)
    then show ?thesis using t1 t2 r by simp
  next
    case (Inr nm)
    have "?rest nm v1 = (fst (?rest nm v2), v1)" by (rule pure_ioD[OF pr])
    then show ?thesis using t1 t2 r Inr by simp
  qed
qed

lemma pure_ensureBucket: "pure_io (ensureBucket env)"
  by (simp add: ensureBucket_def pure_ret pure_throw split: option.split)

lemma pure_uploadAudio: "pure_io (uploadAudio env b)"
  by (simp add: uploadAudio_def Let_def seq_def pure_bind pure_ensureBucket pure_ret pure_throw)

lemma uploadAudio_pure: "uploadAudio env b w = (fst (uploadAudio env b w0), w)"
  by (rule pure_ioD[OF pure_uploadAudio])

lemma uploadAudio_result:
  "fst (uploadAudio env b w) = Inl StorageError \<or>
   fst (uploadAudio env b w) =
     Inr (SUPABASE_URL env @ ''/storage/v1/object/public/tts-voices/'' @ ''tts_'' @ uuid_mp3 env @ ''.mp3'')"
  by (simp add: uploadAudio_def Let_def ensureBucket_def seq_def bind_def ret_def throw_def
      split: option.split)

lemma uploadAudio_url: "fst (uploadAudio env b w) = Inr pub \<Longrightarrow> pub \<noteq> []"
  using uploadAudio_result[of env b w] by auto

lemma reply_text:
  "twilio_create env from (Body (Plain translated)) \<Longrightarrow>
   reply env from 0 original translated dest gender w
     = (Inr (), w\<lparr>outbox := outbox w @ [(from, Body (Plain translated))]\<rparr>)"
  by (simp add: reply_def sendMessage_text)

lemma reply_voice:
  assumes "num \<noteq> 0" "\<forall>p. twilio_create env from p"
  shows "fst (reply env from num original translated dest gender w) = Inr ()
    \<and> outbox (snd (reply env from num original translated dest gender w)) =
        outbox w @ [(from, Body (Heard original)), (from, Body (Plain translated))] @
          (case fst (tts env translated dest gender w) of
             Inl e \<Rightarrow> []
           | Inr mp3 \<Rightarrow> (case fst (uploadAudio env mp3 w) of
                           Inl e \<Rightarrow> []
                         | Inr pub \<Rightarrow> [(from, MediaUrl pub)]))"
proof -
  let ?w2 = "w\<lparr>outbox := outbox w @ [(from, Body (Heard original)), (from, Body (Plain translated))]\<rparr>"
  have two: "reply env from num original translated dest gender w =
      try_catch (bind (tts env translated dest gender) (\<lambda>mp3.
                   bind (uploadAudio env mp3) (\<lambda>pub.
                   sendMessage env from (Plain []) (Some pub))))
                  (\<lambda>e. ret ()) ?w2"
    using assms by (simp add: reply_def seq_def bind_def sendMessage_text)
  obtain rt wt where t: "tts env translated dest gender ?w2 = (rt, wt)"
    by (cases "tts env translated dest gender ?w2")
  have rt: "rt = fst (tts env translated dest gender w)"
    using tts_cong[of ?w2 w env translated dest gender] t by simp
  have wt: "outbox wt = outbox ?w2"
    using keepsD2[OF keeps_tts t, of outbox] by simp
  show ?thesis
  proof (cases rt)
    case (Inl e)
    then have t0: "fst (tts env translated dest gender w) = Inl e" using rt by simp
    have t2: "tts env translated dest gender ?w2 = (Inl e, wt)" using t Inl by simp
    show ?thesis unfolding two using t0 t2 wt
      by (simp add: try_catch_def bind_def ret_def)
  next
    case (Inr mp3)
    then have t0: "fst (tts env translated dest gender w) = Inr mp3" using rt by simp
    have t2: "tts env translated dest gender ?w2 = (Inr mp3, wt)" using t Inr by simp
    have up: "uploadAudio env mp3 wt = (fst (uploadAudio env mp3 w), wt)" by (rule uploadAudio_pure)
    show ?thesis
    proof (cases "fst (uploadAudio env mp3 w)")
      case (Inl e)
      then have up2: "uploadAudio env mp3 wt = (Inl e, wt)" using up by simp
      show ?thesis unfolding two using t0 t2 wt Inl up2
        by (simp add: try_catch_def bind_def ret_def)
    next
      case (Inr pub)
      then have up2: "uploadAudio env mp3 wt = (Inr pub, wt)" using up by simp
      have "pub \<noteq> []" using Inr by (rule uploadAudio_url)
      then have sm: "sendMessage env from (Plain []) (Some pub) wt
                   = (Inr (), wt\<lparr>outbox := outbox wt @ [(from, MediaUrl pub)]\<rparr>)"
        using assms(2) by (simp add: sendMessage_media)
      show ?thesis unfolding two using t0 t2 wt Inr up2 sm
        by (simp add: try_catch_def bind_def ret_def)
    qed
  qed
qed


lemma translation_phase_to_reply:
  assumes "(if num > 0 \<and> truthy mediaUrl then media_branch env (or_else mediaUrl [])
            else if txt \<noteq> [] then bind (detectLang env txt) (\<lambda>d. ret (txt, take 2 d))
            else ret ([], [])) w = (Inr (original, detected), w1)"
    and "original \<noteq> []"
    and "chat_completion env original (destination detected s t) = Some c"
  shows "\<exists>w3. translation_phase env from txt num mediaUrl u s t g w
                = reply env from num original (trim c) (destination detected s t) g w3
              \<and> outbox w3 = outbox w1 \<and> voiceCache w3 = voiceCache w1"
proof (cases "isFree u")
  case True
  let ?w3 = "w1\<lparr>users := update_rows (\<lambda>r. phone_number r = from)
                             (\<lambda>r. r\<lparr>free_used := free_used u + 1\<rparr>) (users w1),
                translation_rows := translation_rows w1 @
                  [\<lparr>row_id = uuid_log env, row_phone_number = from, original_text = original,
                    translated_text = trim c, language_from = detected,
                    language_to = destination detected s t\<rparr>]\<rparr>"
  have "translation_phase env from txt num mediaUrl u s t g w
                = reply env from num original (trim c) (destination detected s t) g ?w3"
    unfolding translation_phase_def bind_def[of _ _ w] assms(1)
    using assms(2,3) True
    by (simp add: Let_def translate_def bind_def ret_def seq_def logRow_def modify_def
        update_users_def)
  then show ?thesis by (intro exI[of _ ?w3]) simp
next
  case False
  let ?w3 = "w1\<lparr>translation_rows := translation_rows w1 @
                  [\<lparr>row_id = uuid_log env, row_phone_number = from, original_text = original,
                    translated_text = trim c, language_from = detected,
                    language_to = destination detected s t\<rparr>]\<rparr>"
  have "translation_phase env from txt num mediaUrl u s t g w
                = reply env from num original (trim c) (destination detected s t) g ?w3"
    unfolding translation_phase_def bind_def[of _ _ w] assms(1)
    using assms(2,3) False
    by (simp add: Let_def translate_def bind_def ret_def seq_def logRow_def modify_def)
  then show ?thesis by (intro exI[of _ ?w3]) simp
qed

lemma route_ready:
  assumes "language_step u = ''ready''" "source_lang u = Some s" "target_lang u = Some t"
    "voice_gender u = Some g" "s \<noteq> []" "t \<noteq> []" "g \<noteq> []"
    "\<not> (isFree u \<and> free_used u \<ge> 5)" "\<not> test_reset txt"
  shows "route env from txt num mediaUrl u = translation_phase env from txt num mediaUrl u s t g"
  using assms unfolding route_def by auto

text \<open>
  Claim C8. The user has finished the wizard and is not behind the paywall gate, the text is
  not the reset command, the read of the row and every send succeed.
  \<^item> A voice note (media present) that is fetched, transcoded and transcribed to a non-empty
  text and then translated gets the transcript with the speaking-head mark, then the
  translation, then the link of the uploaded audio: three messages when synthesis and
  upload succeed, the first two alone when synthesis fails (after its three tiers) or the
  upload fails.
  \<^item> A text message (no media) whose language is detected and that is translated gets the
  translation and nothing else.
\<close>

theorem voice_note_reply_messages:
  assumes "from \<noteq> []" and "find (\<lambda>r. phone_number r = from) (users w) = Some u"
    and "language_step u = ''ready''" and "source_lang u = Some s" and "target_lang u = Some t"
    and "voice_gender u = Some g" and "s \<noteq> []" and "t \<noteq> []" and "g \<noteq> []"
    and "\<not> (isFree u \<and> free_used u \<ge> 5)" and "\<not> test_reset txt"
    and "\<forall>p. twilio_create env from p"
    and "db_select_ok env"
  shows "(num > 0 \<and> url \<noteq> [] \<and> media_branch env url w = (Inr (original, detected), w1)
          \<and> original \<noteq> [] \<and> chat_completion env original (destination detected s t) = Some c
          \<longrightarrow> fst (handleIncoming env from txt num (Some url) w) = Inr ()
            \<and> (\<forall>mp3 pub. fst (tts env (trim c) (destination detected s t) g w) = Inr mp3
                  \<and> fst (uploadAudio env mp3 w) = Inr pub
                \<longrightarrow> outbox (snd (handleIncoming env from txt num (Some url) w))
                      = outbox w @ [(from, Body (Heard original)), (from, Body (Plain (trim c))),
                                    (from, MediaUrl pub)])
            \<and> ((\<exists>e. fst (tts env (trim c) (destination detected s t) g w) = Inl e)
                  \<or> (\<exists>mp3 e. fst (tts env (trim c) (destination detected s t) g w) = Inr mp3
                        \<and> fst (uploadAudio env mp3 w) = Inl e)
                \<longrightarrow> outbox (snd (handleIncoming env from txt num (Some url) w))
                      = outbox w @ [(from, Body (Heard original)), (from, Body (Plain (trim c)))]))
     \<and> (txt \<noteq> [] \<and> detect_api env txt = Some d
          \<and> chat_completion env txt (destination (take 2 d) s t) = Some c
          \<longrightarrow> handleIncoming env from txt 0 mediaUrl w
                = (Inr (), snd (handleIncoming env from txt 0 mediaUrl w))
            \<and> outbox (snd (handleIncoming env from txt 0 mediaUrl w))
                = outbox w @ [(from, Body (Plain (trim c)))])"
proof (intro conjI impI)
  assume a: "num > 0 \<and> url \<noteq> [] \<and> media_branch env url w = (Inr (original, detected), w1)
          \<and> original \<noteq> [] \<and> chat_completion env original (destination detected s t) = Some c"
  let ?dest = "destination detected s t"
  have h: "handleIncoming env from txt num (Some url) w
             = translation_phase env from txt num (Some url) u s t g w"
    using handleIncoming_known[OF assms(1,13,2)] route_ready[OF assms(3-11)] by simp
  have first: "(if num > 0 \<and> truthy (Some url) then media_branch env (or_else (Some url) [])
            else if txt \<noteq> [] then bind (detectLang env txt) (\<lambda>d. ret (txt, take 2 d))
            else ret ([], [])) w = (Inr (original, detected), w1)"
    using a by (simp add: truthy_def or_else_def)
  from translation_phase_to_reply[OF first, of s t c "from" u g] a
  obtain w3 where w3: "translation_phase env from txt num (Some url) u s t g w
                = reply env from num original (trim c) ?dest g w3"
      "outbox w3 = outbox w1" "voiceCache w3 = voiceCache w1" by blast
  have "outbox w1 = outbox w" "voiceCache w1 = voiceCache w"
    using a keepsD2[OF keeps_media_branch, of outbox env url w _ w1]
      keepsD2[OF keeps_media_branch, of voiceCache env url w _ w1] by simp_all
  then have ob: "outbox w3 = outbox w" and vc: "voiceCache w3 = voiceCache w" using w3 by simp_all
  have n: "num \<noteq> 0" using a by simp
  note rv = reply_voice[OF n assms(12), of original "trim c" ?dest g w3]
  have tt: "fst (tts env (trim c) ?dest g w3) = fst (tts env (trim c) ?dest g w)"
    by (rule tts_cong[OF vc])
  have uu: "\<And>mp3. fst (uploadAudio env mp3 w3) = fst (uploadAudio env mp3 w)"
    by (metis uploadAudio_pure fst_conv)
  show "fst (handleIncoming env from txt num (Some url) w) = Inr ()"
    using rv h w3(1) by simp
  show "\<forall>mp3 pub. fst (tts env (trim c) ?dest g w) = Inr mp3
                  \<and> fst (uploadAudio env mp3 w) = Inr pub
                \<longrightarrow> outbox (snd (handleIncoming env from txt num (Some url) w))
                      = outbox w @ [(from, Body (Heard original)), (from, Body (Plain (trim c))),
                                    (from, MediaUrl pub)]"
    using rv h w3(1) ob tt uu by simp
  assume "(\<exists>e. fst (tts env (trim c) ?dest g w) = Inl e)
                  \<or> (\<exists>mp3 e. fst (tts env (trim c) ?dest g w) = Inr mp3
                        \<and> fst (uploadAudio env mp3 w) = Inl e)"
  then show "outbox (snd (handleIncoming env from txt num (Some url) w))
                      = outbox w @ [(from, Body (Heard original)), (from, Body (Plain (trim c)))]"
    using rv h w3(1) ob tt uu by auto
next
  assume a: "txt \<noteq> [] \<and> detect_api env txt = Some d
          \<and> chat_completion env txt (destination (take 2 d) s t) = Some c"
  let ?dest = "destination (take 2 d) s t"
  have h: "handleIncoming env from txt 0 mediaUrl w
             = translation_phase env from txt 0 mediaUrl u s t g w"
    using handleIncoming_known[OF assms(1,13,2)] route_ready[OF assms(3-11)] by simp
  have first: "(if (0::int) > 0 \<and> truthy mediaUrl then media_branch env (or_else mediaUrl [])
            else if txt \<noteq> [] then bind (detectLang env txt) (\<lambda>d. ret (txt, take 2 d))
            else ret ([], [])) w = (Inr (txt, take 2 d), w)"
    using a by (simp add: detectLang_def bind_def ret_def)
  from translation_phase_to_reply[OF first, of s t c "from" u g] a
  obtain w3 where w3: "translation_phase env from txt 0 mediaUrl u s t g w
                = reply env from 0 txt (trim c) ?dest g w3"
      "outbox w3 = outbox w" by blast
  have "reply env from 0 txt (trim c) ?dest g w3
          = (Inr (), w3\<lparr>outbox := outbox w3 @ [(from, Body (Plain (trim c)))]\<rparr>)"
    using assms(12) by (simp add: reply_text)
  then show "handleIncoming env from txt 0 mediaUrl w
                = (Inr (), snd (handleIncoming env from txt 0 mediaUrl w))"
    "outbox (snd (handleIncoming env from txt 0 mediaUrl w))
                = outbox w @ [(from, Body (Plain (trim c)))]"
    using h w3 by simp_all
qed

theorem voice_note_reply_messages_witness:
  "find (\<lambda>r. phone_number r = ''+1555'') (users (world_of [sample_user])) = Some sample_user
   \<and> \<not> (isFree sample_user \<and> free_used sample_user \<ge> 5) \<and> \<not> test_reset []
   \<and> db_select_ok env_ok
   \<and> media_branch env_ok ''https://media/1'' (world_of [sample_user])
        = (Inr (''Hola'', ''es''), world_of [sample_user])
   \<and> outbox (snd (handleIncoming env_ok ''+1555'' [] 1 (Some ''https://media/1'') (world_of [sample_user])))
        = [(''+1555'', Body (Heard ''Hola'')), (''+1555'', Body (Plain ''Hola to en'')),
           (''+1555'', MediaUrl ''https://db.example/storage/v1/object/public/tts-voices/tts_4e5f.mp3'')]
   \<and> fst (tts (env_ok\<lparr>synthesize_api := \<lambda>txt lc nm. Some None\<rparr>) ''Hola to en'' ''en'' ''FEMALE''
             (world_of [sample_user])) = Inl TTSFailed
   \<and> outbox (snd (handleIncoming (env_ok\<lparr>synthesize_api := \<lambda>txt lc nm. Some None\<rparr>) ''+1555'' [] 1
                     (Some ''https://media/1'') (world_of [sample_user])))
        = [(''+1555'', Body (Heard ''Hola'')), (''+1555'', Body (Plain ''Hola to en''))]
   \<and> outbox (snd (handleIncoming env_ok ''+1555'' ''Hola'' 0 None (world_of [sample_user])))
        = [(''+1555'', Body (Plain ''Hola to en''))]"
proof -
  let ?w = "world_of [sample_user]"
  let ?quiet = "env_ok\<lparr>synthesize_api := \<lambda>txt lc nm. Some None\<rparr>"
  have a: "''+1555'' \<noteq> []" by simp
  have b: "find (\<lambda>r. phone_number r = ''+1555'') (users ?w) = Some sample_user"
    by (simp add: world_of_def sample_user_def)
  have c: "language_step sample_user = ''ready''" "source_lang sample_user = Some ''en''"
    "target_lang sample_user = Some ''es''" "voice_gender sample_user = Some ''FEMALE''"
    "''en'' \<noteq> []" "''es'' \<noteq> []" "''FEMALE'' \<noteq> []"
    "\<not> (isFree sample_user \<and> free_used sample_user \<ge> 5)"
    by (simp_all add: sample_user_def)
  have d: "\<not> test_reset []" "\<not> test_reset ''Hola''" by code_simp+
  have e: "\<forall>p. twilio_create env_ok ''+1555'' p" "\<forall>p. twilio_create ?quiet ''+1555'' p"
    by (simp_all add: env_ok_def)
  have ok: "db_select_ok env_ok" "db_select_ok ?quiet" by (simp_all add: env_ok_def)
  have m: "media_branch env_ok ''https://media/1'' ?w = (Inr (''Hola'', ''es''), ?w)"
    "media_branch ?quiet ''https://media/1'' ?w = (Inr (''Hola'', ''es''), ?w)"
    by code_simp+
  have t: "chat_completion env_ok ''Hola'' (destination ''es'' ''en'' ''es'') = Some ''Hola to en''"
    "chat_completion ?quiet ''Hola'' (destination ''es'' ''en'' ''es'') = Some ''Hola to en''"
    "detect_api env_ok ''Hola'' = Some ''es''" "take 2 ''es'' = ''es''"
    "trim ''Hola to en'' = ''Hola to en''" "destination ''es'' ''en'' ''es'' = ''en''"
    by code_simp+
  have s: "fst (tts env_ok ''Hola to en'' ''en'' ''FEMALE'' ?w) = Inr ''mp3''"
    "fst (uploadAudio env_ok ''mp3'' ?w)
       = Inr ''https://db.example/storage/v1/object/public/tts-voices/tts_4e5f.mp3''"
    "fst (tts ?quiet ''Hola to en'' ''en'' ''FEMALE'' ?w) = Inl TTSFailed"
    by code_simp+
  have o: "outbox ?w = []" by (simp add: world_of_def)
  have n: "(1::int) > 0" "''https://media/1'' \<noteq> []" "''Hola'' \<noteq> []" by simp_all
  note voice = voice_note_reply_messages[where num = 1 and url = "''https://media/1''"
      and original = "''Hola''" and detected = "''es''" and ?w1.0 = "world_of [sample_user]"
      and c = "''Hola to en''", OF a b c(1-8) d(1) e(1) ok(1)]
  note silent = voice_note_reply_messages[where num = 1 and url = "''https://media/1''"
      and original = "''Hola''" and detected = "''es''" and ?w1.0 = "world_of [sample_user]"
      and c = "''Hola to en''", OF a b c(1-8) d(1) e(2) ok(2)]
  note plain = voice_note_reply_messages[where d = "''es''" and c = "''Hola to en''"
      and mediaUrl = None, OF a b c(1-8) d(2) e(1) ok(1)]
  have three: "outbox (snd (handleIncoming env_ok ''+1555'' [] 1 (Some ''https://media/1'') ?w))
        = [(''+1555'', Body (Heard ''Hola'')), (''+1555'', Body (Plain ''Hola to en'')),
           (''+1555'', MediaUrl ''https://db.example/storage/v1/object/public/tts-voices/tts_4e5f.mp3'')]"
    using voice m(1) t s(1,2) o n by simp
  have two: "outbox (snd (handleIncoming ?quiet ''+1555'' [] 1 (Some ''https://media/1'') ?w))
        = [(''+1555'', Body (Heard ''Hola'')), (''+1555'', Body (Plain ''Hola to en''))]"
    using silent m(2) t s(3) o n by simp
  have one: "outbox (snd (handleIncoming env_ok ''+1555'' ''Hola'' 0 None ?w))
        = [(''+1555'', Body (Plain ''Hola to en''))]"
    using plain t o n by simp
  show ?thesis using b c(8) d(1) m(1) s(3) three two one ok(1) by simp
qed

section \<open>The temporary files\<close>

lemma files_after_cleanup:
  assumes "raw \<notin> set fs" "wav \<notin> set fs"
  shows "removeAll wav (removeAll raw (List.insert wav (List.insert raw fs))) = fs"
  using assms by (auto simp: List.insert_def removeAll_id)

lemma transcribe_media_cleanup:
  assumes "ffmpeg_run env raw" and "raw \<notin> set (files w)" and "wav \<notin> set (files w)"
    and "wav \<noteq> raw"
  shows "files (snd (transcribe_media env raw wav w)) = files w"
proof -
  let ?w2 = "w\<lparr>files := List.insert wav (List.insert raw (files w))\<rparr>"
  let ?body = "bind (whisper env wav) (\<lambda>r.
                     if snd r \<noteq> [] then ret (fst r, snd r)
                     else bind (detectLang env (fst r)) (\<lambda>d. ret (fst r, take 2 d)))"
  have kb: "keeps (\<lambda>w. w) ?body"
    by (intro keeps_bind keeps_whisper keeps_if keeps_ret keeps_detectLang)
  obtain rb wb where b: "?body ?w2 = (rb, wb)" by (cases "?body ?w2")
  have wb: "wb = ?w2" using keepsD2[OF kb b] by simp
  have m: "transcribe_media env raw wav w
             = try_finally ?body (seq (unlinkSync raw) (unlinkSync wav)) ?w2"
    using assms(1) unfolding transcribe_media_def
    by (simp add: seq_def bind_def writeFileSync_def modify_def toWav_def ret_def)
  have fin: "seq (unlinkSync raw) (unlinkSync wav) ?w2
      = (Inr (), ?w2\<lparr>files := removeAll wav (removeAll raw (files ?w2))\<rparr>)"
    using assms(4) by (auto simp: seq_def bind_def unlinkSync_def List.insert_def)
  show ?thesis
    unfolding m try_finally_def b wb
    using fin files_after_cleanup[OF assms(2,3)] by simp
qed

lemma transcribe_media_leak:
  assumes "\<not> ffmpeg_run env raw"
  shows "transcribe_media env raw wav w = (Inl FfmpegError, w\<lparr>files := List.insert raw (files w)\<rparr>)"
  using assms unfolding transcribe_media_def
  by (simp add: seq_def bind_def writeFileSync_def modify_def toWav_def throw_def)

text \<open>
  Claim C9 fails on the code. The downloaded file is written and transcoded before the
  \<open>try\<close> whose \<open>finally\<close> deletes the two files. A user who has finished the wizard sends
  a picture: the media is fetched and written to \<open>/tmp/0a1b.dat\<close>, ffmpeg rejects it, the
  handler ends with that exception, and the file stays.
\<close>

theorem raw_file_left_when_transcoding_fails:
  "handleIncoming
     (env_ok\<lparr>fetch_media := \<lambda>url. Some (''bytes'', Some ''image/jpeg''), ffmpeg_run := \<lambda>i. False\<rparr>)
     ''+1555'' [] 1 (Some ''https://media/1'') (world_of [sample_user])
   = (Inl FfmpegError, (world_of [sample_user])\<lparr>files := [''/tmp/0a1b.dat'']\<rparr>)"
  by code_simp

section \<open>Source and target language differ\<close>

lemma lang_inv_keeps:
  "keeps lang_view m \<Longrightarrow> m w = (r, w') \<Longrightarrow> lang_inv (lang_view w) \<Longrightarrow> lang_inv (lang_view w')"
  using keepsD2[of lang_view m w r w'] by simp

lemma lang_view_update:
  "lang_view (w\<lparr>users := update_rows p f (users w)\<rparr>)
     = map (\<lambda>u. let v = (if p u then f u else u)
                 in (phone_number v, language_step v, source_lang v, target_lang v)) (users w)"
  by (simp add: lang_view_def update_rows_def Let_def comp_def)

lemma lang_inv_update:
  assumes "lang_inv (lang_view w)"
    and "\<And>u. phone_number (f u) = phone_number u"
    and "\<And>u. u \<in> set (users w) \<Longrightarrow> p u \<Longrightarrow>
            lang_ok (phone_number u, language_step (f u), source_lang (f u), target_lang (f u))"
  shows "lang_inv (lang_view (w\<lparr>users := update_rows p f (users w)\<rparr>))"
proof -
  have d: "map fst (lang_view (w\<lparr>users := update_rows p f (users w)\<rparr>)) = map fst (lang_view w)"
    using assms(2) by (simp add: lang_view_def update_rows_def comp_def)
  have ok: "\<forall>u \<in> set (users w). lang_ok (phone_number u, language_step u, source_lang u, target_lang u)"
    using assms(1) by (simp add: lang_inv_def lang_view_def)
  have "\<forall>v \<in> set (lang_view (w\<lparr>users := update_rows p f (users w)\<rparr>)). lang_ok v"
  proof
    fix v assume "v \<in> set (lang_view (w\<lparr>users := update_rows p f (users w)\<rparr>))"
    then obtain u where u: "u \<in> set (users w)"
      "v = (let x = (if p u then f u else u)
            in (phone_number x, language_step x, source_lang x, target_lang x))"
      unfolding lang_view_update by auto
    show "lang_ok v"
    proof (cases "p u")
      case True
      then show ?thesis using u assms(2,3)[of u] by (simp add: Let_def)
    next
      case False
      then show ?thesis using u ok by (simp add: Let_def)
    qed
  qed
  then show ?thesis using assms(1) d by (simp add: lang_inv_def)
qed

lemma lang_view_outbox [simp]: "lang_view (w\<lparr>outbox := x\<rparr>) = lang_view w"
  by (simp add: lang_view_def)

lemma sendMessage_lang: "sendMessage env to b m w = (r, w') \<Longrightarrow> lang_view w' = lang_view w"
  using keepsD2[OF keeps_sendMessage, of lang_view] by simp

lemma seq_update_send:
  assumes "seq (update_users p f) k w = (r, w')" "keeps lang_view k"
  shows "lang_view w' = lang_view (w\<lparr>users := update_rows p f (users w)\<rparr>)"
proof -
  have "k (w\<lparr>users := update_rows p f (users w)\<rparr>) = (r, w')"
    using assms(1) by (simp add: seq_def bind_def update_users_def modify_def)
  then show ?thesis using keepsD2[OF assms(2)] by simp
qed

lemma found_row_ok:
  assumes "lang_inv (lang_view w)" "find (\<lambda>r. phone_number r = from) (users w) = Some u"
  shows "lang_ok (phone_number u, language_step u, source_lang u, target_lang u)"
    and "distinct (map phone_number (users w))"
proof -
  have "u \<in> set (users w)" using assms(2) by (auto simp: find_Some_iff)
  then show "lang_ok (phone_number u, language_step u, source_lang u, target_lang u)"
    using assms(1) by (simp add: lang_inv_def lang_view_def)
  show "distinct (map phone_number (users w))"
    using assms(1) by (simp add: lang_inv_def lang_view_def comp_def)
qed

lemma route_inv:
  assumes inv: "lang_inv (lang_view w)"
    and found: "find (\<lambda>r. phone_number r = from) (users w) = Some u"
    and run: "route env from txt num mediaUrl u w = (r, w')"
  shows "lang_inv (lang_view w')"
  using run
proof (cases rule: route_cases)
  case billing
  have "keeps lang_view (paywall_quick_reply env from txt u)"
    by (rule keeps_paywall_quick_reply) (simp_all add: lang_view_def map_update_rows)
  then show ?thesis using billing(4) inv by (rule lang_inv_keeps)
next
  case reset
  let ?f = "\<lambda>r. r\<lparr>language_step := ''ui'', source_lang := None, target_lang := None,
                    voice_gender := None, ui_lang := None\<rparr>"
  have "lang_view w' = lang_view (w\<lparr>users := update_rows (\<lambda>r. phone_number r = from) ?f (users w)\<rparr>)"
    using reset(2) unfolding reset_cmd_def
    by (rule seq_update_send) (simp add: keeps_sendMessage)
  moreover have "lang_inv (lang_view (w\<lparr>users := update_rows (\<lambda>r. phone_number r = from) ?f (users w)\<rparr>))"
    using inv by (rule lang_inv_update) (simp_all add: lang_ok_def)
  ultimately show ?thesis by simp
next
  case paywall
  then show ?thesis using inv sendMessage_lang[of env "from" _ None w r w']
    by (simp add: paywall_gate_def)
next
  case ui
  show ?thesis
  proof (cases "pickLang txt")
    case None
    then show ?thesis using ui(4) inv sendMessage_lang[of env "from" _ None w r w']
      by (simp add: step_ui_def)
  next
    case (Some c)
    let ?f = "\<lambda>r. r\<lparr>ui_lang := Some (code c), source_lang := Some (code c),
                         language_step := ''target''\<rparr>"
    have "lang_view w' = lang_view (w\<lparr>users := update_rows (\<lambda>r. phone_number r = from) ?f (users w)\<rparr>)"
      using ui(4) Some unfolding step_ui_def
      by (simp only: option.case) (rule seq_update_send, assumption, simp add: keeps_seq keeps_sendMessage)
    moreover have "lang_inv (lang_view (w\<lparr>users := update_rows (\<lambda>r. phone_number r = from) ?f (users w)\<rparr>))"
      using inv
    proof (rule lang_inv_update)
      fix x assume x: "x \<in> set (users w)" "phone_number x = from"
      have "x = u" using unique_phone[OF found_row_ok(2)[OF inv found] found x] .
      moreover have "target_lang u = None"
        using found_row_ok(1)[OF inv found] ui(3) by (simp add: lang_ok_def)
      ultimately show "lang_ok (phone_number x, language_step (?f x), source_lang (?f x), target_lang (?f x))"
        by (simp add: lang_ok_def)
    qed simp
    ultimately show ?thesis by simp
  qed
next
  case target
  show ?thesis
  proof (cases "pickLang txt")
    case None
    then show ?thesis using target(4) inv sendMessage_lang[of env "from" _ None w r w']
      by (simp add: step_target_def Let_def)
  next
    case (Some c)
    show ?thesis
    proof (cases "Some (code c) = source_lang u")
      case True
      then show ?thesis using target(4) Some inv sendMessage_lang[of env "from" _ None w r w']
        by (simp add: step_target_def Let_def)
    next
      case False
      let ?f = "\<lambda>r. r\<lparr>target_lang := Some (code c), language_step := ''gender''\<rparr>"
      have "seq (update_users (\<lambda>r. phone_number r = from) ?f)
              (sendMessage env from (tr (or_else (ui_lang u) ''en'') Voice) None) w = (r, w')"
        using target(4) Some False by (simp add: step_target_def Let_def)
      then have "lang_view w' = lang_view (w\<lparr>users := update_rows (\<lambda>r. phone_number r = from) ?f (users w)\<rparr>)"
        by (rule seq_update_send) (simp add: keeps_sendMessage)
      moreover have "lang_inv (lang_view (w\<lparr>users := update_rows (\<lambda>r. phone_number r = from) ?f (users w)\<rparr>))"
        using inv
      proof (rule lang_inv_update)
        fix x assume x: "x \<in> set (users w)" "phone_number x = from"
        have "x = u" using unique_phone[OF found_row_ok(2)[OF inv found] found x] .
        then show "lang_ok (phone_number x, language_step (?f x), source_lang (?f x), target_lang (?f x))"
          using False by (auto simp: lang_ok_def)
      qed simp
      ultimately show ?thesis by simp
    qed
  qed
next
  case gender
  show ?thesis
  proof (cases "choose_gender txt")
    case None
    then show ?thesis using gender(4) inv sendMessage_lang[of env "from" _ None w r w']
      by (simp add: step_gender_def Let_def)
  next
    case (Some g)
    let ?f = "\<lambda>r. r\<lparr>voice_gender := Some g, language_step := ''ready''\<rparr>"
    have "seq (update_users (\<lambda>r. phone_number r = from) ?f)
              (sendMessage env from (tr (or_else (ui_lang u) ''en'') SetupDone) None) w = (r, w')"
      using gender(4) Some by (simp add: step_gender_def Let_def)
    then have "lang_view w' = lang_view (w\<lparr>users := update_rows (\<lambda>r. phone_number r = from) ?f (users w)\<rparr>)"
      by (rule seq_update_send) (simp add: keeps_sendMessage)
    moreover have "lang_inv (lang_view (w\<lparr>users := update_rows (\<lambda>r. phone_number r = from) ?f (users w)\<rparr>))"
      using inv
    proof (rule lang_inv_update)
      fix x assume x: "x \<in> set (users w)" "phone_number x = from"
      have "\<forall>y \<in> set (users w). lang_ok (phone_number y, language_step y, source_lang y, target_lang y)"
        using inv by (simp add: lang_inv_def lang_view_def)
      then have "lang_ok (phone_number x, language_step x, source_lang x, target_lang x)"
        using x(1) by blast
      then show "lang_ok (phone_number x, language_step (?f x), source_lang (?f x), target_lang (?f x))"
        by (simp add: lang_ok_def)
    qed simp
    ultimately show ?thesis by simp
  qed
next
  case incomplete
  then show ?thesis using inv sendMessage_lang[of env "from" _ None w r w'] by simp
next
  case (pipeline s t g)
  have "keeps lang_view (translation_phase env from txt num mediaUrl u s t g)"
    by (rule keeps_translation_phase) (simp_all add: lang_view_def map_update_rows)
  then show ?thesis using pipeline(10) inv by (rule lang_inv_keeps)
qed

text \<open>
  A run of the handler that has read the row of the sender keeps the invariant: no two rows
  with one phone number, a row in step \<open>ui\<close> or \<open>target\<close> has no \<open>target_lang\<close>, and two
  languages that are both set differ. The billing webhook and the loading of the voices
  write none of these columns.
\<close>

lemma handleIncoming_inv:
  assumes inv: "lang_inv (lang_view w)"
    and ok: "db_select_ok env"
    and run: "handleIncoming env from txt num mediaUrl w = (r, w')"
  shows "lang_inv (lang_view w')"
  using run
proof (cases rule: handleIncoming_cases)
  case nofrom
  then show ?thesis using inv by simp
next
  case (known u)
  then show ?thesis using route_inv[OF inv] by blast
next
  case created
  let ?w0 = "w\<lparr>users := users w @ [new_user env from]\<rparr>"
  have no: "\<forall>u \<in> set (users w). phone_number u \<noteq> from"
    using created(2) by (simp add: find_None_iff)
  have inv0: "lang_inv (lang_view ?w0)"
    using inv no by (auto simp: lang_inv_def lang_view_def new_user_def lang_ok_def comp_def)
  have "find (\<lambda>u. phone_number u = from) (users ?w0) = Some (new_user env from)"
    using created(2) find_append_new[of "\<lambda>u. phone_number u = from" "users w" "new_user env from"]
    by (simp add: new_user_def)
  then show ?thesis using route_inv[OF inv0 _ created(3)] by blast
next
  case (overwritten u)
  then show ?thesis using ok by simp
qed

lemma stripe_webhook_lang: "lang_view (snd (stripe_webhook env raw_body signature w)) = lang_view w"
  by (simp add: stripe_webhook_def Let_def checkout_completed_def subscription_deleted_def
      lang_view_def map_update_rows split: option.split)

lemma loadVoices_lang: "lang_view (snd (loadVoices env w)) = lang_view w"
  by (rule keepsD[OF keeps_loadVoices]) (simp add: lang_view_def)

lemma start_inv: "lang_inv (lang_view (world_of []))"
  by (simp add: lang_inv_def lang_view_def world_of_def)

lemma lang_inv_differ:
  assumes "lang_inv (lang_view w)" "u \<in> set (users w)"
    "source_lang u = Some s" "target_lang u = Some t"
  shows "s \<noteq> t"
proof -
  have "lang_ok (phone_number u, language_step u, source_lang u, target_lang u)"
    using assms(1,2) by (simp add: lang_inv_def lang_view_def)
  then show ?thesis using assms(3,4) by (simp add: lang_ok_def)
qed

lemma route_target:
  "language_step u = ''target'' \<Longrightarrow> \<not> (isFree u \<and> free_used u \<ge> 5) \<Longrightarrow> \<not> test_reset txt
   \<Longrightarrow> route env from txt num mediaUrl u = step_target env from txt u"
  unfolding route_def by auto

text \<open>
  The step that stores \<open>target_lang\<close> (step \<open>target\<close>, for a user who is not behind the paywall
  gate and does not send a reset, in a run that has read the row):
  \<^item> a selection equal to \<open>source_lang\<close> is answered with the must-differ text and the menu,
  and nothing else changes: no row is written, the step does not advance;
  \<^item> a selection different from \<open>source_lang\<close> stores it as \<open>target_lang\<close> and moves the
  sender's row to step \<open>gender\<close>;
  \<^item> a text that selects no language changes no row.
\<close>

lemma target_step_checks_source:
  assumes "from \<noteq> []" and "db_select_ok env"
    and "find (\<lambda>r. phone_number r = from) (users v) = Some a"
    and "language_step a = ''target''" and "\<not> (isFree a \<and> free_used a \<ge> 5)"
    and "\<not> test_reset txt" and "\<forall>b. twilio_create env from (Body b)"
  shows "pickLang txt = Some c \<Longrightarrow> Some (code c) = source_lang a
           \<Longrightarrow> handleIncoming env from txt num mediaUrl v
                 = (Inr (), v\<lparr>outbox := outbox v @
                      [(from, Body (Lines (tr (or_else (ui_lang a) ''en'') TargetDiff)
                                      (menuMsg (tr (or_else (ui_lang a) ''en'') Receive))))]\<rparr>)"
    and "pickLang txt = Some c \<Longrightarrow> Some (code c) \<noteq> source_lang a
           \<Longrightarrow> users (snd (handleIncoming env from txt num mediaUrl v))
                 = update_rows (\<lambda>r. phone_number r = from)
                     (\<lambda>r. r\<lparr>target_lang := Some (code c), language_step := ''gender''\<rparr>) (users v)"
    and "pickLang txt = None
           \<Longrightarrow> users (snd (handleIncoming env from txt num mediaUrl v)) = users v"
proof -
  have h: "handleIncoming env from txt num mediaUrl v = step_target env from txt a v"
    using handleIncoming_known[OF assms(1,2,3)] route_target[OF assms(4,5,6)] by simp
  show "pickLang txt = Some c \<Longrightarrow> Some (code c) = source_lang a
           \<Longrightarrow> handleIncoming env from txt num mediaUrl v
                 = (Inr (), v\<lparr>outbox := outbox v @
                      [(from, Body (Lines (tr (or_else (ui_lang a) ''en'') TargetDiff)
                                      (menuMsg (tr (or_else (ui_lang a) ''en'') Receive))))]\<rparr>)"
    using h assms(7) by (simp add: step_target_def Let_def sendMessage_text)
  show "pickLang txt = Some c \<Longrightarrow> Some (code c) \<noteq> source_lang a
           \<Longrightarrow> users (snd (handleIncoming env from txt num mediaUrl v))
                 = update_rows (\<lambda>r. phone_number r = from)
                     (\<lambda>r. r\<lparr>target_lang := Some (code c), language_step := ''gender''\<rparr>) (users v)"
    using h assms(7)
    by (simp add: step_target_def Let_def seq_def bind_def update_users_def modify_def
        sendMessage_text)
  show "pickLang txt = None
           \<Longrightarrow> users (snd (handleIncoming env from txt num mediaUrl v)) = users v"
    using h assms(7) by (simp add: step_target_def Let_def sendMessage_text)
qed

text \<open>
  Claim C4 does not hold of the code. The step \<open>ui\<close> stores \<open>source_lang\<close> without looking at
  \<open>target_lang\<close>; it relies on \<open>target_lang\<close> being empty whenever a row is in step \<open>ui\<close>. The
  upsert that follows a failed read puts a finished row back in step \<open>ui\<close> and leaves its
  \<open>target_lang\<close>. A sender goes through the wizard from the empty tables (English to
  Spanish); then one message \<open>2\<close> arrives in a run whose read fails. The handler returns
  normally, and the row of the sender, in a state reached by whole runs of the handler,
  has \<open>source_lang = target_lang = es\<close>. In a run that reads the row the same message is a
  text to translate and the two languages stay as they are.
\<close>

theorem source_equals_target_after_failed_read:
  "reachable world_after_setup
   \<and> map (\<lambda>u. (language_step u, source_lang u, target_lang u)) (users world_after_setup)
       = [(''ready'', Some ''en'', Some ''es'')]
   \<and> db_select_ok env_read_fails = False
   \<and> reachable (snd (handleIncoming env_read_fails ''+1555'' ''2'' 0 None world_after_setup))
   \<and> fst (handleIncoming env_read_fails ''+1555'' ''2'' 0 None world_after_setup) = Inr ()
   \<and> map (\<lambda>u. (language_step u, source_lang u, target_lang u))
       (users (snd (handleIncoming env_read_fails ''+1555'' ''2'' 0 None world_after_setup)))
       = [(''target'', Some ''es'', Some ''es'')]
   \<and> map (\<lambda>u. (language_step u, source_lang u, target_lang u))
       (users (snd (handleIncoming env_ok ''+1555'' ''2'' 0 None world_after_setup)))
       = [(''ready'', Some ''en'', Some ''es'')]"
proof -
  have r: "reachable world_after_setup"
    unfolding world_after_setup_def by (intro reachable.message reachable.start)
  then have r': "reachable (snd (handleIncoming env_read_fails ''+1555'' ''2'' 0 None world_after_setup))"
    by (rule reachable.message)
  have a: "map (\<lambda>u. (language_step u, source_lang u, target_lang u)) (users world_after_setup)
       = [(''ready'', Some ''en'', Some ''es'')]"
    by code_simp
  have b: "db_select_ok env_read_fails = False"
    by (simp add: env_read_fails_def)
  have c: "fst (handleIncoming env_read_fails ''+1555'' ''2'' 0 None world_after_setup) = Inr ()"
    by code_simp
  have d: "map (\<lambda>u. (language_step u, source_lang u, target_lang u))
       (users (snd (handleIncoming env_read_fails ''+1555'' ''2'' 0 None world_after_setup)))
       = [(''target'', Some ''es'', Some ''es'')]"
    by code_simp
  have e: "map (\<lambda>u. (language_step u, source_lang u, target_lang u))
       (users (snd (handleIncoming env_ok ''+1555'' ''2'' 0 None world_after_setup)))
       = [(''ready'', Some ''en'', Some ''es'')]"
    by code_simp
  show ?thesis using r r' a b c d e by (intro conjI)
qed

section \<open>The order of the tests in the second variant\<close>

text \<open>
  In the variant of \<open>part_001\<close> a user in a wizard step whose row has been read always
  reaches that step: neither the quota nor the reset command is looked at before.
\<close>

lemma wizard_first_001:
  assumes "from \<noteq> []" and "find (\<lambda>r. phone_number r = from) (users w) = Some u"
    and "language_step u \<in> {''choose_ui'', ''receive'', ''gender''}"
    and "db_select_ok env"
  shows "handleIncoming_001 env from txt num mediaUrl w =
           (if language_step u = ''choose_ui'' then step_choose_ui_001 env from txt u w
            else if language_step u = ''receive'' then step_receive_001 env from txt u w
            else step_gender_001 env from txt u w)"
proof -
  have "handleIncoming_001 env from txt num mediaUrl w = route_001 env from txt num mediaUrl u w"
    using assms(1,2,4)
    by (simp add: handleIncoming_001_def fetch_or_create_001_def select_user_def bind_def ret_def)
  then show ?thesis using assms(3) unfolding route_001_def by auto
qed

text \<open>
  There a reset sent in step \<open>receive\<close> is read as a language choice that selects nothing:
  the menu is sent again and the row stays as it was.
\<close>

lemma reset_in_wizard_001:
  "handleIncoming_001 env_ok ''+1555'' ''reset'' 0 None
     (world_of [sample_user\<lparr>language_step := ''receive'', target_lang := None, voice_gender := None\<rparr>])
   = (Inr (), (world_of [sample_user\<lparr>language_step := ''receive'', target_lang := None, voice_gender := None\<rparr>])
                \<lparr>outbox := [(''+1555'', Body (MenuMsg (L ''en'' AskReceive)))]\<rparr>)"
  by code_simp

end
